theory Spec2Isabelle
  imports Main "HOL-Library.Word"
begin

unbundle bit_operations_syntax

section \<open>Byte strings and SHA-256\<close>

text \<open>
  \<^verbatim>\<open>ImageStorage._compute_hash\<close> is \<^verbatim>\<open>hashlib.sha256(data).hexdigest()\<close>. The digest is
  defined here as FIPS 180-4 states it, over 32-bit words, so that the hash of the model is the
  hash of the program and not an uninterpreted symbol.
\<close>

type_synonym bytes = "8 word list"

type_synonym w32 = "32 word"

definition rotr :: "nat \<Rightarrow> w32 \<Rightarrow> w32" where
  "rotr n x = or (drop_bit n x) (push_bit (32 - n) x)"

definition Ch :: "w32 \<Rightarrow> w32 \<Rightarrow> w32 \<Rightarrow> w32" where
  "Ch x y z = xor (and x y) (and (not x) z)"

definition Maj :: "w32 \<Rightarrow> w32 \<Rightarrow> w32 \<Rightarrow> w32" where
  "Maj x y z = xor (xor (and x y) (and x z)) (and y z)"

definition bsig0 :: "w32 \<Rightarrow> w32" where
  "bsig0 x = xor (xor (rotr 2 x) (rotr 13 x)) (rotr 22 x)"

definition bsig1 :: "w32 \<Rightarrow> w32" where
  "bsig1 x = xor (xor (rotr 6 x) (rotr 11 x)) (rotr 25 x)"

definition ssig0 :: "w32 \<Rightarrow> w32" where
  "ssig0 x = xor (xor (rotr 7 x) (rotr 18 x)) (drop_bit 3 x)"

definition ssig1 :: "w32 \<Rightarrow> w32" where
  "ssig1 x = xor (xor (rotr 17 x) (rotr 19 x)) (drop_bit 10 x)"

text \<open>The 64 round constants (FIPS 180-4, section 4.2.2), written in decimal.\<close>

definition K256 :: "w32 list" where
  "K256 = [
    1116352408, 1899447441, 3049323471, 3921009573, 961987163, 1508970993,
    2453635748, 2870763221, 3624381080, 310598401, 607225278, 1426881987,
    1925078388, 2162078206, 2614888103, 3248222580, 3835390401, 4022224774,
    264347078, 604807628, 770255983, 1249150122, 1555081692, 1996064986,
    2554220882, 2821834349, 2952996808, 3210313671, 3336571891, 3584528711,
    113926993, 338241895, 666307205, 773529912, 1294757372, 1396182291,
    1695183700, 1986661051, 2177026350, 2456956037, 2730485921, 2820302411,
    3259730800, 3345764771, 3516065817, 3600352804, 4094571909, 275423344,
    430227734, 506948616, 659060556, 883997877, 958139571, 1322822218,
    1537002063, 1747873779, 1955562222, 2024104815, 2227730452, 2361852424,
    2428436474, 2756734187, 3204031479, 3329325298]"

type_synonym hstate = "w32 \<times> w32 \<times> w32 \<times> w32 \<times> w32 \<times> w32 \<times> w32 \<times> w32"

definition H0 :: hstate where
  "H0 = (0x6a09e667, 0xbb67ae85, 0x3c6ef372, 0xa54ff53a,
         0x510e527f, 0x9b05688c, 0x1f83d9ab, 0x5be0cd19)"

text \<open>Padding: the byte 0x80, zero bytes up to 56 modulo 64, the bit length on 64 bits.\<close>

definition pad :: "bytes \<Rightarrow> bytes" where
  "pad m = (let l = length m; k = (119 - l mod 64) mod 64 in
     m @ [0x80] @ replicate k 0 @
     map (\<lambda>i. ucast (drop_bit (8 * (7 - i)) (8 * word_of_nat l :: 64 word))) [0..<8])"

definition be32 :: "bytes \<Rightarrow> w32" where
  "be32 bs = foldl (\<lambda>acc b. or (push_bit 8 acc) (ucast b)) 0 bs"

definition chunks :: "nat \<Rightarrow> 'a list \<Rightarrow> 'a list list" where
  "chunks n xs = map (\<lambda>i. take n (drop (n * i) xs)) [0..<length xs div n]"

fun schedule :: "nat \<Rightarrow> w32 list \<Rightarrow> w32 list" where
  "schedule 0 ws = ws"
| "schedule (Suc n) ws = (let t = length ws in
     schedule n (ws @ [ssig1 (ws ! (t - 2)) + ws ! (t - 7) + ssig0 (ws ! (t - 15)) + ws ! (t - 16)]))"

definition round256 :: "hstate \<Rightarrow> w32 \<times> w32 \<Rightarrow> hstate" where
  "round256 s kw = (case s of (a, b, c, d, e, f, g, h) \<Rightarrow>
     (let t1 = h + bsig1 e + Ch e f g + fst kw + snd kw;
          t2 = bsig0 a + Maj a b c
      in (t1 + t2, a, b, c, d + t1, e, f, g)))"

definition compress :: "hstate \<Rightarrow> bytes \<Rightarrow> hstate" where
  "compress s blk = (let ws = schedule 48 (map be32 (chunks 4 blk)) in
     (case (s, foldl round256 s (zip K256 ws)) of
        ((a, b, c, d, e, f, g, h), (a', b', c', d', e', f', g', h')) \<Rightarrow>
          (a + a', b + b', c + c', d + d', e + e', f + f', g + g', h + h')))"

definition sha256 :: "bytes \<Rightarrow> hstate" where
  "sha256 m = foldl compress H0 (chunks 64 (pad m))"

definition hexchar :: "nat \<Rightarrow> char" where
  "hexchar n = ''0123456789abcdef'' ! (n mod 16)"

definition hex32 :: "w32 \<Rightarrow> string" where
  "hex32 x = map (\<lambda>i. hexchar (unat (and (drop_bit (4 * (7 - i)) x) 0xf))) [0..<8]"

definition hexdigest :: "hstate \<Rightarrow> string" where
  "hexdigest s = (case s of (a, b, c, d, e, f, g, h) \<Rightarrow>
     hex32 a @ hex32 b @ hex32 c @ hex32 d @ hex32 e @ hex32 f @ hex32 g @ hex32 h)"

definition sha256_hex :: "bytes \<Rightarrow> string" where
  "sha256_hex m = hexdigest (sha256 m)"

text \<open>A full-length digest: 64 lower-case hexadecimal characters.\<close>

definition is_digest :: "string \<Rightarrow> bool" where
  "is_digest h \<longleftrightarrow> length h = 64 \<and> (\<forall>c \<in> set h. c \<in> set ''0123456789abcdef'')"

section \<open>Paths: the part of pathlib the module uses\<close>

text \<open>
  The module builds its locations with \<^verbatim>\<open>pathlib.Path\<close> on a POSIX system (its default root is
  \<^verbatim>\<open>/mnt/raid1/sai-images\<close>). A path is its root (empty, one slash or exactly two slashes) and the
  list of its components; the functions below follow the library's \<^verbatim>\<open>splitroot\<close>,
  \<^verbatim>\<open>parse_parts\<close>, \<^verbatim>\<open>join_parsed_parts\<close>, \<^verbatim>\<open>__str__\<close>, \<^verbatim>\<open>name\<close>, \<^verbatim>\<open>suffix\<close> and
  \<^verbatim>\<open>with_suffix\<close> (CPython 3.8 to 3.13). Strings are lists of 8-bit characters.
\<close>

record pure_path =
  path_root :: string
  path_parts :: "string list"

definition sep :: char where
  "sep = CHR ''/''"

text \<open>\<^verbatim>\<open>str.split('/')\<close>. The result is never the empty list, so the first branch of the
  case distinction is never taken.\<close>

fun split_sep :: "string \<Rightarrow> string list" where
  "split_sep [] = [[]]"
| "split_sep (c # cs) =
     (if c = sep then [] # split_sep cs
      else (case split_sep cs of [] \<Rightarrow> [[c]] | x # xs \<Rightarrow> (c # x) # xs))"

text \<open>\<^verbatim>\<open>'/'.join(parts)\<close>.\<close>

fun join_sep :: "string list \<Rightarrow> string" where
  "join_sep [] = []"
| "join_sep [x] = x"
| "join_sep (x # y # ys) = x @ sep # join_sep (y # ys)"

definition splitroot :: "string \<Rightarrow> string \<times> string" where
  "splitroot part =
     (if part \<noteq> [] \<and> hd part = sep then
        (let stripped_part = dropWhile (\<lambda>c. c = sep) part in
         if length part - length stripped_part = 2 then ([sep, sep], stripped_part)
         else ([sep], stripped_part))
      else ([], part))"

definition keep_part :: "string \<Rightarrow> bool" where
  "keep_part x \<longleftrightarrow> x \<noteq> [] \<and> x \<noteq> ''.''"

text \<open>One string parsed: empty components and \<^verbatim>\<open>.\<close> are dropped, \<^verbatim>\<open>..\<close> is kept.\<close>

definition parse_path :: "string \<Rightarrow> pure_path" where
  "parse_path s = (case splitroot s of (r, rel) \<Rightarrow>
     \<lparr>path_root = r, path_parts = filter keep_part (split_sep rel)\<rparr>)"

text \<open>Joining: a second path that has a root replaces the first (POSIX paths have no drive).\<close>

definition join_parsed_parts :: "pure_path \<Rightarrow> pure_path \<Rightarrow> pure_path" where
  "join_parsed_parts p q =
     (if path_root q \<noteq> [] then q
      else \<lparr>path_root = path_root p, path_parts = path_parts p @ path_parts q\<rparr>)"

fun parse_parts :: "string list \<Rightarrow> pure_path" where
  "parse_parts [] = \<lparr>path_root = [], path_parts = []\<rparr>"
| "parse_parts (a # as) = join_parsed_parts (parse_path a) (parse_parts as)"

definition joinpath :: "pure_path \<Rightarrow> string list \<Rightarrow> pure_path" where
  "joinpath p args = join_parsed_parts p (parse_parts args)"

definition truediv :: "pure_path \<Rightarrow> string \<Rightarrow> pure_path" where
  "truediv p key = joinpath p [key]"

definition path_str :: "pure_path \<Rightarrow> string" where
  "path_str p = (let s = path_root p @ join_sep (path_parts p) in if s = [] then ''.'' else s)"

definition path_name :: "pure_path \<Rightarrow> string" where
  "path_name p = (if path_parts p = [] then [] else last (path_parts p))"

text \<open>\<^verbatim>\<open>str.rfind\<close>: the highest index of the character, or -1.\<close>

definition rfind :: "string \<Rightarrow> char \<Rightarrow> int" where
  "rfind s c =
     (if c \<in> set s then int (length s) - 1 - int (length (takeWhile (\<lambda>x. x \<noteq> c) (rev s)))
      else - 1)"

definition path_suffix :: "pure_path \<Rightarrow> string" where
  "path_suffix p = (let name = path_name p; i = rfind name CHR ''.'' in
     if 0 < i \<and> i < int (length name) - 1 then drop (nat i) name else [])"

datatype error = ValueError | OSError nat

definition with_suffix :: "pure_path \<Rightarrow> string \<Rightarrow> error + pure_path" where
  "with_suffix p suffix =
     (if sep \<in> set suffix then Inl ValueError
      else if (suffix \<noteq> [] \<and> hd suffix \<noteq> CHR ''.'') \<or> suffix = ''.'' then Inl ValueError
      else (let name = path_name p in
        if name = [] then Inl ValueError
        else (let old_suffix = path_suffix p;
                  name' = (if old_suffix = [] then name @ suffix
                           else take (length name - length old_suffix) name @ suffix)
              in Inr (p\<lparr>path_parts := butlast (path_parts p) @ [name']\<rparr>))))"

text \<open>Python's \<^verbatim>\<open>xs[start:stop]\<close> on integers: negative indices count from the end, out of range
  indices are clipped, and nothing is raised.\<close>

definition py_slice :: "'a list \<Rightarrow> int \<Rightarrow> int \<Rightarrow> 'a list" where
  "py_slice xs start stop =
     (let n = int (length xs);
          s = (if start < 0 then max (start + n) 0 else min start n);
          e = (if stop < 0 then max (stop + n) 0 else min stop n)
      in take (nat (e - s)) (drop (nat s) xs))"

section \<open>The file system and its failures\<close>

text \<open>
  The store keeps no state of its own: every operation reads or changes the file system. The
  file system is a map from paths to nodes, and the record of the mutating calls issued so far
  says what an operation did. A path names a node by its root and components as written: links
  and the resolution of \<^verbatim>\<open>..\<close> are not modelled. Each call of the operating system either has
  its effect or fails with an error number chosen by the environment (the \<open>faults\<close> of one
  operation); a failed write may have left a prefix of the data behind, a failed
  \<^verbatim>\<open>makedirs\<close> some of the directories. A call on a node that is not there, and a read or a
  removal of a directory, fail in any case. The operations are \<^verbatim>\<open>async\<close> in the source; here
  one operation runs from its first call to its last without another one in between.
\<close>

datatype node = File bytes | Dir

datatype io_call =
    Makedirs pure_path
  | OpenWrite pure_path bytes
  | Rename pure_path pure_path
  | Remove pure_path

record world =
  files :: "pure_path \<rightharpoonup> node"
  calls :: "io_call list"

text \<open>The failures the environment has ready for one operation: \<open>stat_fault\<close> for the
  \<^verbatim>\<open>stat\<close> call of the existence check on the final location, \<open>cleanup_stat_fault\<close> for the one
  on the temporary path in the \<^verbatim>\<open>except\<close> block of \<^verbatim>\<open>store\<close>, the others for the call they
  name.\<close>

record faults =
  stat_fault :: "nat option"
  makedirs_fault :: "(nat \<times> nat) option"
  write_fault :: "(nat \<times> nat option) option"
  rename_fault :: "nat option"
  cleanup_stat_fault :: "nat option"
  remove_fault :: "nat option"
  read_fault :: "nat option"

definition no_faults :: faults where
  "no_faults = \<lparr>stat_fault = None, makedirs_fault = None, write_fault = None, rename_fault = None,
                 cleanup_stat_fault = None, remove_fault = None, read_fault = None\<rparr>"

definition ENOENT :: nat where "ENOENT = 2"

definition EBADF :: nat where "EBADF = 9"

definition ENOTDIR :: nat where "ENOTDIR = 20"

definition EISDIR :: nat where "EISDIR = 21"

definition ENAMETOOLONG :: nat where "ENAMETOOLONG = 36"

definition ELOOP :: nat where "ELOOP = 40"

text \<open>\<^verbatim>\<open>os.stat(p)\<close>: fails when the environment says so, and when nothing is at \<open>p\<close>.\<close>

definition os_stat :: "nat option \<Rightarrow> pure_path \<Rightarrow> world \<Rightarrow> error + unit" where
  "os_stat sf p w =
     (case sf of
        Some e \<Rightarrow> Inl (OSError e)
      | None \<Rightarrow> (case files w p of None \<Rightarrow> Inl (OSError ENOENT) | Some nd \<Rightarrow> Inr ()))"

text \<open>pathlib's \<^verbatim>\<open>_ignore_error\<close>: the error numbers that \<^verbatim>\<open>Path.exists\<close> takes for absence.\<close>

definition ignore_error :: "nat \<Rightarrow> bool" where
  "ignore_error e \<longleftrightarrow> e = ENOENT \<or> e = ENOTDIR \<or> e = EBADF \<or> e = ELOOP"

text \<open>\<^verbatim>\<open>Path.exists\<close>: true when \<^verbatim>\<open>stat\<close> succeeds, false on an ignored \<^verbatim>\<open>OSError\<close> and on a
  \<^verbatim>\<open>ValueError\<close>; every other \<^verbatim>\<open>OSError\<close> is raised again (a name that is too long, a
  directory that may not be searched).\<close>

definition path_exists :: "nat option \<Rightarrow> world \<Rightarrow> pure_path \<Rightarrow> error + bool" where
  "path_exists sf w p =
     (case os_stat sf p w of
        Inl (OSError e) \<Rightarrow> if ignore_error e then Inr False else Inl (OSError e)
      | Inl ValueError \<Rightarrow> Inr False
      | Inr u \<Rightarrow> Inr True)"

definition ancestors :: "pure_path \<Rightarrow> pure_path list" where
  "ancestors p = map (\<lambda>k. p\<lparr>path_parts := take k (path_parts p)\<rparr>) [1..<Suc (length (path_parts p))]"

definition mkdirs :: "pure_path list \<Rightarrow> (pure_path \<rightharpoonup> node) \<Rightarrow> (pure_path \<rightharpoonup> node)" where
  "mkdirs ps fs = foldl (\<lambda>f q. if f q = None then f(q \<mapsto> Dir) else f) fs ps"

text \<open>\<^verbatim>\<open>os.makedirs(p, exist_ok=True)\<close>: the missing directories on the way to \<open>p\<close>, and \<open>p\<close>.\<close>

definition os_makedirs :: "faults \<Rightarrow> pure_path \<Rightarrow> world \<Rightarrow> (error + unit) \<times> world" where
  "os_makedirs flt p w =
     (case makedirs_fault flt of
        Some (e, k) \<Rightarrow>
          (Inl (OSError e),
           \<lparr>files = mkdirs (take k (ancestors p)) (files w), calls = calls w @ [Makedirs p]\<rparr>)
      | None \<Rightarrow>
          (Inr (), \<lparr>files = mkdirs (ancestors p) (files w), calls = calls w @ [Makedirs p]\<rparr>))"

text \<open>\<^verbatim>\<open>open(p, 'wb')\<close>, \<^verbatim>\<open>write(data)\<close> and the close at the end of the \<^verbatim>\<open>with\<close> block.\<close>

definition os_write :: "faults \<Rightarrow> pure_path \<Rightarrow> bytes \<Rightarrow> world \<Rightarrow> (error + unit) \<times> world" where
  "os_write flt p data w =
     (case write_fault flt of
        Some (e, None) \<Rightarrow> (Inl (OSError e), \<lparr>files = files w, calls = calls w @ [OpenWrite p data]\<rparr>)
      | Some (e, Some n) \<Rightarrow>
          (Inl (OSError e),
           \<lparr>files = (files w)(p \<mapsto> File (take n data)), calls = calls w @ [OpenWrite p data]\<rparr>)
      | None \<Rightarrow>
          (Inr (), \<lparr>files = (files w)(p \<mapsto> File data), calls = calls w @ [OpenWrite p data]\<rparr>))"

definition os_rename :: "faults \<Rightarrow> pure_path \<Rightarrow> pure_path \<Rightarrow> world \<Rightarrow> (error + unit) \<times> world" where
  "os_rename flt src dst w =
     (case rename_fault flt of
        Some e \<Rightarrow> (Inl (OSError e), \<lparr>files = files w, calls = calls w @ [Rename src dst]\<rparr>)
      | None \<Rightarrow>
          (case files w src of
             None \<Rightarrow> (Inl (OSError ENOENT), \<lparr>files = files w, calls = calls w @ [Rename src dst]\<rparr>)
           | Some nd \<Rightarrow>
               (Inr (), \<lparr>files = ((files w)(src := None))(dst \<mapsto> nd),
                         calls = calls w @ [Rename src dst]\<rparr>)))"

definition os_remove :: "faults \<Rightarrow> pure_path \<Rightarrow> world \<Rightarrow> (error + unit) \<times> world" where
  "os_remove flt p w =
     (case remove_fault flt of
        Some e \<Rightarrow> (Inl (OSError e), \<lparr>files = files w, calls = calls w @ [Remove p]\<rparr>)
      | None \<Rightarrow>
          (case files w p of
             None \<Rightarrow> (Inl (OSError ENOENT), \<lparr>files = files w, calls = calls w @ [Remove p]\<rparr>)
           | Some Dir \<Rightarrow> (Inl (OSError EISDIR), \<lparr>files = files w, calls = calls w @ [Remove p]\<rparr>)
           | Some (File c) \<Rightarrow>
               (Inr (), \<lparr>files = (files w)(p := None), calls = calls w @ [Remove p]\<rparr>)))"

text \<open>\<^verbatim>\<open>open(p, 'rb')\<close> and \<^verbatim>\<open>read()\<close>: the whole content, or an error.\<close>

definition os_read :: "faults \<Rightarrow> pure_path \<Rightarrow> world \<Rightarrow> error + bytes" where
  "os_read flt p w =
     (case read_fault flt of
        Some e \<Rightarrow> Inl (OSError e)
      | None \<Rightarrow>
          (case files w p of
             None \<Rightarrow> Inl (OSError ENOENT)
           | Some Dir \<Rightarrow> Inl (OSError EISDIR)
           | Some (File c) \<Rightarrow> Inr c))"

section \<open>ImageStorage\<close>

record storage_result =
  hash :: string
  path :: string
  size_bytes :: nat
  is_duplicate :: bool
  stored_at :: nat

record image_storage =
  base_path :: pure_path
  shard_depth :: int
  shard_width :: int

text \<open>\<^verbatim>\<open>__init__\<close> stores its three arguments; it checks nothing and raises nothing.\<close>

definition init :: "string \<Rightarrow> int \<Rightarrow> int \<Rightarrow> image_storage" where
  "init bp d w = \<lparr>base_path = parse_path bp, shard_depth = d, shard_width = w\<rparr>"

text \<open>The module's global instance, built with the default arguments.\<close>

definition image_storage_default :: image_storage where
  "image_storage_default = init ''/mnt/raid1/sai-images'' 2 2"

definition compute_hash :: "bytes \<Rightarrow> string" where
  "compute_hash data = sha256_hex data"

text \<open>The list \<^verbatim>\<open>parts\<close> that the loop of \<^verbatim>\<open>_get_shard_path\<close> builds, \<open>i\<close> running over
  \<^verbatim>\<open>range(self.shard_depth)\<close>.\<close>

definition shard_parts :: "image_storage \<Rightarrow> string \<Rightarrow> string list" where
  "shard_parts self h =
     map (\<lambda>i. py_slice h (i * shard_width self) (i * shard_width self + shard_width self))
       [0..shard_depth self - 1]"

definition get_shard_path :: "image_storage \<Rightarrow> string \<Rightarrow> pure_path" where
  "get_shard_path self h = joinpath (base_path self) (shard_parts self h)"

definition get_file_path :: "image_storage \<Rightarrow> string \<Rightarrow> string \<Rightarrow> pure_path" where
  "get_file_path self h extension = truediv (get_shard_path self h) (h @ extension)"

datatype image_input = Bytes bytes | BytesIO bytes

text \<open>The \<^verbatim>\<open>except Exception\<close> block of \<^verbatim>\<open>store\<close>: remove the temporary file if it is there, then
  re-raise. An exception of the check or of the removal leaves the block in place of the one
  being handled.\<close>

definition store_cleanup :: "faults \<Rightarrow> pure_path \<Rightarrow> error \<Rightarrow> world \<Rightarrow> (error + storage_result) \<times> world" where
  "store_cleanup flt temp_path e w =
     (case path_exists (cleanup_stat_fault flt) w temp_path of
        Inl e' \<Rightarrow> (Inl e', w)
      | Inr present \<Rightarrow>
          if present then
            (case os_remove flt temp_path w of
               (Inl e', w') \<Rightarrow> (Inl e', w')
             | (Inr _, w') \<Rightarrow> (Inl e, w'))
          else (Inl e, w))"

text \<open>\<^verbatim>\<open>store\<close>. The clock reading \<open>now\<close> stands for \<^verbatim>\<open>datetime.utcnow()\<close>; the metadata
  argument is accepted and not used; the log messages are not modelled.\<close>

definition store ::
  "image_storage \<Rightarrow> faults \<Rightarrow> nat \<Rightarrow> image_input \<Rightarrow> string \<Rightarrow> 'm option \<Rightarrow> world
     \<Rightarrow> (error + storage_result) \<times> world" where
  "store self flt now image_data extension metadata w =
     (let data = (case image_data of BytesIO buf \<Rightarrow> buf | Bytes b \<Rightarrow> b);
          image_hash = compute_hash data;
          file_path = get_file_path self image_hash extension
      in case path_exists (stat_fault flt) w file_path of
           Inl e \<Rightarrow> (Inl e, w)
         | Inr dup \<Rightarrow>
             (let result = \<lparr>hash = image_hash, path = path_str file_path,
                             size_bytes = length data, is_duplicate = dup, stored_at = now\<rparr>
              in if \<not> dup then
                   (let shard_dir = get_shard_path self image_hash in
                    case os_makedirs flt shard_dir w of
                      (Inl e, w1) \<Rightarrow> (Inl e, w1)
                    | (Inr _, w1) \<Rightarrow>
                        (case with_suffix file_path ''.tmp'' of
                           Inl e \<Rightarrow> (Inl e, w1)
                         | Inr temp_path \<Rightarrow>
                             (case os_write flt temp_path data w1 of
                                (Inl e, w2) \<Rightarrow> store_cleanup flt temp_path e w2
                              | (Inr _, w2) \<Rightarrow>
                                  (case os_rename flt temp_path file_path w2 of
                                     (Inl e, w3) \<Rightarrow> store_cleanup flt temp_path e w3
                                   | (Inr _, w3) \<Rightarrow> (Inr result, w3)))))
                 else (Inr result, w)))"

definition fetch :: "image_storage \<Rightarrow> faults \<Rightarrow> string \<Rightarrow> string \<Rightarrow> world \<Rightarrow> error + bytes option" where
  "fetch self flt image_hash extension w =
     (let file_path = get_file_path self image_hash extension in
      case path_exists (stat_fault flt) w file_path of
        Inl e \<Rightarrow> Inl e
      | Inr present \<Rightarrow>
          if \<not> present then Inr None
          else (case os_read flt file_path w of Inl e \<Rightarrow> Inl e | Inr b \<Rightarrow> Inr (Some b)))"

definition exists :: "image_storage \<Rightarrow> faults \<Rightarrow> string \<Rightarrow> string \<Rightarrow> world \<Rightarrow> error + bool" where
  "exists self flt image_hash extension w =
     path_exists (stat_fault flt) w (get_file_path self image_hash extension)"

definition get_path :: "image_storage \<Rightarrow> string \<Rightarrow> string \<Rightarrow> string" where
  "get_path self image_hash extension = path_str (get_file_path self image_hash extension)"

definition delete :: "image_storage \<Rightarrow> faults \<Rightarrow> string \<Rightarrow> string \<Rightarrow> world \<Rightarrow> (error + bool) \<times> world" where
  "delete self flt image_hash extension w =
     (let file_path = get_file_path self image_hash extension in
      case path_exists (stat_fault flt) w file_path of
        Inl e \<Rightarrow> (Inl e, w)
      | Inr present \<Rightarrow>
          if \<not> present then (Inr False, w)
          else (case os_remove flt file_path w of
                  (Inl e, w') \<Rightarrow> (Inl e, w')
                | (Inr _, w') \<Rightarrow> (Inr True, w')))"

section \<open>Notions used to state the properties\<close>

text \<open>Components as the parser produces them: not empty, without a separator.\<close>

definition wf_parts :: "string list \<Rightarrow> bool" where
  "wf_parts ps \<longleftrightarrow> (\<forall>x \<in> set ps. x \<noteq> [] \<and> sep \<notin> set x)"

text \<open>A location is under the root of the store when it has the root's anchor and its
  components start with the root's components (pathlib's \<^verbatim>\<open>is_relative_to\<close>).\<close>

definition under_root :: "image_storage \<Rightarrow> pure_path \<Rightarrow> bool" where
  "under_root self p \<longleftrightarrow>
     path_root p = path_root (base_path self) \<and>
     take (length (path_parts (base_path self))) (path_parts p) = path_parts (base_path self)"

text \<open>A location is inside the root's directory tree when, moreover, none of the components
  after the root's is \<^verbatim>\<open>..\<close> (components are never empty nor \<^verbatim>\<open>.\<close>, and links are not
  modelled): following it from the root never goes above the root.\<close>

definition inside_root :: "image_storage \<Rightarrow> pure_path \<Rightarrow> bool" where
  "inside_root self p \<longleftrightarrow>
     under_root self p \<and> ''..'' \<notin> set (drop (length (path_parts (base_path self))) (path_parts p))"

text \<open>The bytes of an input: \<^verbatim>\<open>store\<close> takes the value of an in-memory buffer.\<close>

definition payload :: "image_input \<Rightarrow> bytes" where
  "payload image_data = (case image_data of BytesIO buf \<Rightarrow> buf | Bytes b \<Rightarrow> b)"

definition is_write :: "io_call \<Rightarrow> bool" where
  "is_write c = (case c of OpenWrite p d \<Rightarrow> True | _ \<Rightarrow> False)"

text \<open>The calls an operation issued: those after the ones already recorded.\<close>

definition new_calls :: "world \<Rightarrow> world \<Rightarrow> io_call list" where
  "new_calls w w' = drop (length (calls w)) (calls w')"

definition empty_world :: world where
  "empty_world = \<lparr>files = Map.empty, calls = []\<rparr>"

text \<open>The payload \<^verbatim>\<open>b"hello"\<close>.\<close>

definition hello :: bytes where
  "hello = [0x68, 0x65, 0x6c, 0x6c, 0x6f]"

text \<open>A digest string of 300 characters, longer than a file name may be.\<close>

definition long_digest :: string where
  "long_digest = replicate 300 (CHR ''a'')"

text \<open>The \<^verbatim>\<open>stat\<close> call fails with \<^verbatim>\<open>ENAMETOOLONG\<close>.\<close>

definition name_too_long :: faults where
  "name_too_long = \<lparr>stat_fault = Some ENAMETOOLONG, makedirs_fault = None, write_fault = None,
                     rename_fault = None, cleanup_stat_fault = None, remove_fault = None,
                     read_fault = None\<rparr>"

subsection \<open>A worked example: storing \<^verbatim>\<open>b"hello"\<close> with the default configuration\<close>

definition hello_hash :: string where
  "hello_hash = ''2cf24dba5fb0a30e26e83b2ac5b9e29e1b161e5c1fa7425e73043362938b9824''"

definition hello_dir :: pure_path where
  "hello_dir = \<lparr>path_root = ''/'', path_parts = [''mnt'', ''raid1'', ''sai-images'', ''2c'', ''f2'']\<rparr>"

definition hello_jpg :: pure_path where
  "hello_jpg = \<lparr>path_root = ''/'', path_parts = [''mnt'', ''raid1'', ''sai-images'', ''2c'', ''f2'',
     ''2cf24dba5fb0a30e26e83b2ac5b9e29e1b161e5c1fa7425e73043362938b9824.jpg'']\<rparr>"

definition hello_tmp :: pure_path where
  "hello_tmp = \<lparr>path_root = ''/'', path_parts = [''mnt'', ''raid1'', ''sai-images'', ''2c'', ''f2'',
     ''2cf24dba5fb0a30e26e83b2ac5b9e29e1b161e5c1fa7425e73043362938b9824.tmp'']\<rparr>"

text \<open>The five directories on the way to the shard directory of \<^verbatim>\<open>b"hello"\<close>.\<close>

definition hello_dirs :: "pure_path \<rightharpoonup> node" where
  "hello_dirs = mkdirs (ancestors hello_dir) Map.empty"

text \<open>The file system after \<^verbatim>\<open>b"hello"\<close> has been stored into an empty one.\<close>

definition stored_hello :: world where
  "stored_hello = \<lparr>files = hello_dirs(hello_jpg \<mapsto> File hello),
                    calls = [Makedirs hello_dir, OpenWrite hello_tmp hello, Rename hello_tmp hello_jpg]\<rparr>"

text \<open>The disk fills up after the first byte, and the removal of the temporary file fails too.\<close>

definition disk_full :: faults where
  "disk_full = \<lparr>stat_fault = None, makedirs_fault = None, write_fault = Some (28, Some 1),
                 rename_fault = None, cleanup_stat_fault = None, remove_fault = Some 13,
                 read_fault = None\<rparr>"

text \<open>The file system such a store of \<^verbatim>\<open>b"hello"\<close> leaves behind.\<close>

definition leftover :: world where
  "leftover = \<lparr>files = hello_dirs(hello_tmp \<mapsto> File [0x68]),
                calls = [Makedirs hello_dir, OpenWrite hello_tmp hello, Remove hello_tmp]\<rparr>"

section \<open>Lemmas on digests and paths\<close>

subsection \<open>The shape of a digest\<close>

lemma hexchar_hex: "hexchar n \<in> set ''0123456789abcdef''"
proof -
  have "n mod 16 < length ''0123456789abcdef''" by simp
  then show ?thesis unfolding hexchar_def by (rule nth_mem)
qed

lemma length_hex32: "length (hex32 x) = 8"
  by (simp add: hex32_def)

lemma set_hex32: "set (hex32 x) \<subseteq> set ''0123456789abcdef''"
proof
  fix c assume "c \<in> set (hex32 x)"
  then obtain i where "c = hexchar (unat (and (drop_bit (4 * (7 - i)) x) 0xf))"
    unfolding hex32_def by (auto simp only: set_map)
  then show "c \<in> set ''0123456789abcdef''"
    by (simp only: hexchar_hex)
qed

lemma is_digest_hexdigest: "is_digest (hexdigest s)"
proof -
  obtain a b c d e f g h where s: "s = (a, b, c, d, e, f, g, h)"
    by (cases s) auto
  have len: "length (hexdigest s) = 64"
    by (simp add: s hexdigest_def length_hex32)
  have "set (hexdigest s) \<subseteq> set ''0123456789abcdef''"
    unfolding s hexdigest_def prod.case set_append
    by (intro Un_least set_hex32)
  with len show ?thesis
    unfolding is_digest_def by blast
qed

lemma is_digest_compute_hash: "is_digest (compute_hash data)"
  by (simp add: compute_hash_def sha256_hex_def is_digest_hexdigest)

lemma hex_not_sep: "sep \<notin> set ''0123456789abcdef''"
  by (simp add: sep_def)

lemma hex_not_dot: "CHR ''.'' \<notin> set ''0123456789abcdef''"
  by simp

lemma is_digest_plain:
  assumes "is_digest h"
  shows "h \<noteq> []" and "sep \<notin> set h" and "CHR ''.'' \<notin> set h"
proof -
  from assms have len: "length h = 64" and sub: "\<forall>c \<in> set h. c \<in> set ''0123456789abcdef''"
    unfolding is_digest_def by blast+
  from len show "h \<noteq> []" by auto
  from sub hex_not_sep show "sep \<notin> set h" by blast
  from sub hex_not_dot show "CHR ''.'' \<notin> set h" by blast
qed

subsection \<open>Splitting and joining at the separator\<close>

lemma split_sep_not_Nil: "split_sep s \<noteq> []"
  by (induction s) (auto split: list.splits)

lemma split_sep_plain: "sep \<notin> set s \<Longrightarrow> split_sep s = [s]"
  by (induction s) auto

lemma split_sep_append:
  "sep \<notin> set a \<Longrightarrow> split_sep (a @ b) = (a @ hd (split_sep b)) # tl (split_sep b)"
proof (induction a)
  case Nil
  then show ?case using split_sep_not_Nil [of b] by simp
next
  case (Cons c a)
  then show ?case by auto
qed

lemma split_sep_no_sep: "x \<in> set (split_sep s) \<Longrightarrow> sep \<notin> set x"
proof (induction s arbitrary: x)
  case Nil
  then show ?case by simp
next
  case (Cons c s)
  then show ?case
    by (cases "split_sep s") (auto split: if_splits)
qed

lemma split_join_sep:
  "xs \<noteq> [] \<Longrightarrow> \<forall>x \<in> set xs. sep \<notin> set x \<Longrightarrow> split_sep (join_sep xs) = xs"
proof (induction xs rule: join_sep.induct)
  case 1
  then show ?case by simp
next
  case (2 x)
  then show ?case by (simp add: split_sep_plain)
next
  case (3 x y ys)
  then have "split_sep (join_sep (y # ys)) = y # ys" by simp
  moreover have "sep \<notin> set x" using 3 by simp
  ultimately show ?case
    by (simp add: split_sep_append)
qed

lemma join_sep_inj:
  assumes "join_sep xs = join_sep ys" "xs \<noteq> []" "ys \<noteq> []"
    and "\<forall>x \<in> set xs. sep \<notin> set x" "\<forall>x \<in> set ys. sep \<notin> set x"
  shows "xs = ys"
  using assms split_join_sep by metis

subsection \<open>Parsing\<close>

lemma splitroot_relative: "s = [] \<or> hd s \<noteq> sep \<Longrightarrow> splitroot s = ([], s)"
  by (auto simp: splitroot_def)

lemma parse_path_plain:
  "sep \<notin> set s \<Longrightarrow> parse_path s = \<lparr>path_root = [], path_parts = filter keep_part [s]\<rparr>"
proof -
  assume a: "sep \<notin> set s"
  then have "s = [] \<or> hd s \<noteq> sep" by (cases s) auto
  then show ?thesis
    using a by (simp add: parse_path_def splitroot_relative split_sep_plain)
qed

lemma parse_path_append:
  assumes "a \<noteq> []" "sep \<notin> set a"
  shows "parse_path (a @ b) =
    \<lparr>path_root = [], path_parts = filter keep_part ((a @ hd (split_sep b)) # tl (split_sep b))\<rparr>"
proof -
  from assms have "hd (a @ b) \<noteq> sep" by (cases a) auto
  then have "splitroot (a @ b) = ([], a @ b)" by (simp add: splitroot_relative)
  then show ?thesis
    using assms by (simp add: parse_path_def split_sep_append)
qed

lemma wf_parts_filter_split: "wf_parts (filter keep_part (split_sep s))"
  using split_sep_no_sep by (auto simp: wf_parts_def keep_part_def)

lemma wf_parts_parse_path: "wf_parts (path_parts (parse_path s))"
  by (cases "splitroot s") (simp add: parse_path_def wf_parts_filter_split)

lemma wf_parts_append: "wf_parts (xs @ ys) \<longleftrightarrow> wf_parts xs \<and> wf_parts ys"
  by (auto simp: wf_parts_def)

lemma wf_parts_join: "wf_parts (path_parts p) \<Longrightarrow> wf_parts (path_parts q) \<Longrightarrow>
    wf_parts (path_parts (join_parsed_parts p q))"
  by (simp add: join_parsed_parts_def wf_parts_append)

lemma wf_parts_parse_parts: "wf_parts (path_parts (parse_parts xs))"
proof (induction xs)
  case Nil
  then show ?case by (simp add: wf_parts_def)
next
  case (Cons a xs)
  then show ?case
    by (simp add: wf_parts_join wf_parts_parse_path)
qed

lemma parse_parts_plain:
  "\<forall>x \<in> set xs. sep \<notin> set x \<Longrightarrow>
     parse_parts xs = \<lparr>path_root = [], path_parts = filter keep_part xs\<rparr>"
  by (induction xs) (simp_all add: parse_path_plain join_parsed_parts_def)

lemma keep_part_append: "h \<noteq> [] \<Longrightarrow> CHR ''.'' \<notin> set h \<Longrightarrow> keep_part (h @ x)"
  by (cases h) (auto simp: keep_part_def)

subsection \<open>Slices\<close>

lemma set_py_slice: "set (py_slice h s e) \<subseteq> set h"
proof -
  have "set (py_slice h s e) \<subseteq> set (drop (nat (if s < 0 then max (s + int (length h)) 0 else min s (int (length h)))) h)"
    unfolding py_slice_def Let_def by (rule set_take_subset)
  also have "\<dots> \<subseteq> set h" by (rule set_drop_subset)
  finally show ?thesis .
qed

lemma length_py_slice_cong:
  "length h1 = length h2 \<Longrightarrow> length (py_slice h1 s e) = length (py_slice h2 s e)"
  by (simp add: py_slice_def Let_def)

lemma py_slice_in_range:
  "0 \<le> s \<Longrightarrow> s \<le> e \<Longrightarrow> e \<le> int (length h) \<Longrightarrow>
     py_slice h s e = take (nat (e - s)) (drop (nat s) h)"
  by (simp add: py_slice_def Let_def)

lemma py_slice_Nil: "py_slice [] s e = []"
  by (simp add: py_slice_def Let_def)

subsection \<open>Shard directory and file location\<close>

lemma shard_parts_no_sep: "sep \<notin> set h \<Longrightarrow> \<forall>x \<in> set (shard_parts self h). sep \<notin> set x"
  using set_py_slice by (fastforce simp: shard_parts_def)

lemma get_shard_path_plain:
  "sep \<notin> set h \<Longrightarrow> get_shard_path self h =
     \<lparr>path_root = path_root (base_path self),
      path_parts = path_parts (base_path self) @ filter keep_part (shard_parts self h)\<rparr>"
  by (simp add: get_shard_path_def joinpath_def parse_parts_plain shard_parts_no_sep
      join_parsed_parts_def)

lemma get_file_path_plain:
  assumes "h \<noteq> []" "sep \<notin> set h"
  shows "get_file_path self h ext =
     \<lparr>path_root = path_root (get_shard_path self h),
      path_parts = path_parts (get_shard_path self h) @
        filter keep_part ((h @ hd (split_sep ext)) # tl (split_sep ext))\<rparr>"
  using assms
  by (simp add: get_file_path_def truediv_def joinpath_def parse_path_append join_parsed_parts_def)

lemma get_file_path_digest:
  assumes "is_digest h"
  shows "get_file_path self h ext =
     \<lparr>path_root = path_root (get_shard_path self h),
      path_parts = path_parts (get_shard_path self h) @
        (h @ hd (split_sep ext)) # filter keep_part (tl (split_sep ext))\<rparr>"
  using is_digest_plain [OF assms]
  by (simp add: get_file_path_plain keep_part_append)

lemma get_file_path_digest_plain_ext:
  assumes "is_digest h" "sep \<notin> set ext"
  shows "get_file_path self h ext =
     \<lparr>path_root = path_root (get_shard_path self h),
      path_parts = path_parts (get_shard_path self h) @ [h @ ext]\<rparr>"
  using assms by (simp add: get_file_path_digest split_sep_plain)

lemma file_path_longer:
  assumes "is_digest h"
  shows "length (path_parts (get_shard_path self h)) < length (path_parts (get_file_path self h ext))"
  by (simp add: get_file_path_digest [OF assms])

lemma file_path_name:
  assumes "is_digest h"
  shows "path_parts (get_file_path self h ext) \<noteq> []"
    and "last (path_parts (get_file_path self h ext)) \<noteq> []"
proof -
  let ?ps = "(h @ hd (split_sep ext)) # filter keep_part (tl (split_sep ext))"
  have parts: "path_parts (get_file_path self h ext) = path_parts (get_shard_path self h) @ ?ps"
    by (simp add: get_file_path_digest [OF assms])
  show "path_parts (get_file_path self h ext) \<noteq> []"
    by (simp add: parts)
  have "\<forall>x \<in> set ?ps. x \<noteq> []"
    using is_digest_plain(1) [OF assms] by (auto simp: keep_part_def)
  moreover have "last (path_parts (get_file_path self h ext)) = last ?ps"
    by (simp add: parts)
  moreover have "last ?ps \<in> set ?ps" by (rule last_in_set) simp
  ultimately show "last (path_parts (get_file_path self h ext)) \<noteq> []"
    by metis
qed

subsection \<open>The temporary name\<close>

lemma with_suffix_tmp_shape:
  assumes "path_parts p \<noteq> []" "last (path_parts p) \<noteq> []"
  shows "\<exists>n. with_suffix p ''.tmp'' = Inr (p\<lparr>path_parts := butlast (path_parts p) @ [n]\<rparr>)"
  using assms by (auto simp: with_suffix_def path_name_def sep_def Let_def)

lemma rfind_last:
  assumes "c \<notin> set e"
  shows "rfind (h @ c # e) c = int (length h)"
proof -
  have "takeWhile (\<lambda>x. x \<noteq> c) (rev e @ c # rev h) = rev e"
  proof -
    have "takeWhile (\<lambda>x. x \<noteq> c) (rev e @ c # rev h) = rev e @ takeWhile (\<lambda>x. x \<noteq> c) (c # rev h)"
      by (rule takeWhile_append2) (use assms in auto)
    then show ?thesis by simp
  qed
  then show ?thesis by (simp add: rfind_def)
qed

lemma path_suffix_dot:
  assumes "path_parts p = qs @ [h @ CHR ''.'' # e]" "h \<noteq> []" "e \<noteq> []" "CHR ''.'' \<notin> set e"
  shows "path_suffix p = CHR ''.'' # e"
  using assms by (simp add: path_suffix_def path_name_def rfind_last Let_def)

lemma with_suffix_replace:
  assumes "path_parts p = qs @ [h @ CHR ''.'' # e]" "h \<noteq> []" "e \<noteq> []" "CHR ''.'' \<notin> set e"
  shows "with_suffix p ''.tmp'' = Inr (p\<lparr>path_parts := qs @ [h @ ''.tmp'']\<rparr>)"
  using assms path_suffix_dot [OF assms]
  by (simp add: with_suffix_def path_name_def sep_def Let_def)

lemma temp_path_of_digest:
  assumes "is_digest h" "e \<noteq> []" "CHR ''.'' \<notin> set e" "sep \<notin> set e"
  shows "with_suffix (get_file_path self h (CHR ''.'' # e)) ''.tmp'' = Inr (get_file_path self h ''.tmp'')"
proof -
  have s1: "sep \<notin> set (CHR ''.'' # e)" using assms by (simp add: sep_def)
  have s2: "sep \<notin> set ''.tmp''" by (simp add: sep_def)
  have "path_parts (get_file_path self h (CHR ''.'' # e)) =
      path_parts (get_shard_path self h) @ [h @ CHR ''.'' # e]"
    by (simp add: get_file_path_digest_plain_ext [OF assms(1) s1])
  from with_suffix_replace [OF this is_digest_plain(1) [OF assms(1)] assms(2,3)]
  show ?thesis
    by (simp add: get_file_path_digest_plain_ext [OF assms(1) s1]
        get_file_path_digest_plain_ext [OF assms(1) s2])
qed

lemma temp_path_tmp_is_final:
  assumes "is_digest h"
  shows "with_suffix (get_file_path self h ''.tmp'') ''.tmp'' = Inr (get_file_path self h ''.tmp'')"
  using temp_path_of_digest [OF assms, of "''tmp''" self] by (simp add: sep_def)

lemma temp_path_jpg:
  assumes "is_digest h"
  shows "with_suffix (get_file_path self h ''.jpg'') ''.tmp'' = Inr (get_file_path self h ''.tmp'')"
  using temp_path_of_digest [OF assms, of "''jpg''" self] by (simp add: sep_def)

lemma temp_path_exists:
  assumes "is_digest h"
  shows "\<exists>tp. with_suffix (get_file_path self h ext) ''.tmp'' = Inr tp \<and>
     length (path_parts tp) = length (path_parts (get_file_path self h ext)) \<and>
     path_root tp = path_root (get_file_path self h ext)"
proof -
  from with_suffix_tmp_shape [OF file_path_name [OF assms]]
  obtain n where "with_suffix (get_file_path self h ext) ''.tmp'' =
      Inr ((get_file_path self h ext)\<lparr>path_parts := butlast (path_parts (get_file_path self h ext)) @ [n]\<rparr>)"
    by blast
  moreover have "length (butlast (path_parts (get_file_path self h ext)) @ [n]) =
      length (path_parts (get_file_path self h ext))"
    using file_path_name(1) [OF assms, of self ext] by simp
  ultimately show ?thesis by simp
qed

subsection \<open>The file system calls\<close>

lemma mkdirs_other: "q \<notin> set ps \<Longrightarrow> mkdirs ps f q = f q"
  unfolding mkdirs_def by (induction ps arbitrary: f) auto

lemma ancestors_length: "a \<in> set (ancestors p) \<Longrightarrow> length (path_parts a) \<le> length (path_parts p)"
  by (auto simp: ancestors_def)

lemma longer_not_ancestor:
  assumes "length (path_parts p) < length (path_parts q)"
  shows "q \<notin> set (take k (ancestors p))" and "q \<notin> set (ancestors p)"
proof -
  show "q \<notin> set (ancestors p)"
    using assms ancestors_length [of q p] by auto
  then show "q \<notin> set (take k (ancestors p))"
    by (auto dest: in_set_takeD)
qed

lemma os_makedirs_calls: "calls (snd (os_makedirs flt p w)) = calls w @ [Makedirs p]"
  by (simp add: os_makedirs_def split: option.splits prod.splits)

lemma os_makedirs_files:
  assumes "length (path_parts p) < length (path_parts q)"
  shows "files (snd (os_makedirs flt p w)) q = files w q"
  using longer_not_ancestor [OF assms]
  by (simp add: os_makedirs_def mkdirs_other split: option.splits prod.splits)

lemma os_makedirs_result:
  "fst (os_makedirs flt p w) = (case makedirs_fault flt of None \<Rightarrow> Inr () | Some (e, k) \<Rightarrow> Inl (OSError e))"
  by (simp add: os_makedirs_def split: option.splits prod.splits)

lemma path_exists_no_fault: "path_exists None w p = Inr (files w p \<noteq> None)"
  by (simp add: path_exists_def os_stat_def ignore_error_def split: option.splits)

lemma path_exists_fault:
  "path_exists (Some e) w p = (if ignore_error e then Inr False else Inl (OSError e))"
  by (simp add: path_exists_def os_stat_def)

lemma probe_absent:
  "stat_fault flt = None \<Longrightarrow> files w p = None \<Longrightarrow> path_exists (stat_fault flt) w p = Inr False"
  by (simp add: path_exists_no_fault)

lemma probe_present:
  "stat_fault flt = None \<Longrightarrow> files w p \<noteq> None \<Longrightarrow> path_exists (stat_fault flt) w p = Inr True"
  by (simp add: path_exists_no_fault)

lemma probe_True:
  "path_exists sf w p = Inr True \<Longrightarrow> sf = None \<and> files w p \<noteq> None"
  by (cases sf) (simp_all add: path_exists_no_fault path_exists_fault split: if_splits)

lemma store_cleanup_fails: "fst (store_cleanup flt tp e w) \<noteq> Inr r"
  by (simp add: store_cleanup_def split: prod.splits sum.splits)

lemma payload_case: "(case inp of BytesIO buf \<Rightarrow> buf | Bytes b \<Rightarrow> b) = payload inp"
  by (simp add: payload_def)

subsection \<open>The anatomy of store\<close>

lemma store_probe_raises:
  assumes "path_exists (stat_fault flt) w (get_file_path self (compute_hash (payload inp)) ext) = Inl e"
  shows "store self flt now inp ext md w = (Inl e, w)"
  using assms by (simp add: store_def payload_case Let_def)

lemma store_duplicate:
  assumes "path_exists (stat_fault flt) w (get_file_path self (compute_hash (payload inp)) ext) = Inr True"
  shows "store self flt now inp ext md w =
    (Inr \<lparr>hash = compute_hash (payload inp),
          path = get_path self (compute_hash (payload inp)) ext,
          size_bytes = length (payload inp), is_duplicate = True, stored_at = now\<rparr>, w)"
  using assms by (simp add: store_def payload_case get_path_def Let_def)

lemma store_fresh:
  assumes "path_exists (stat_fault flt) w (get_file_path self (compute_hash (payload inp)) ext) = Inr False"
    and "with_suffix (get_file_path self (compute_hash (payload inp)) ext) ''.tmp'' = Inr tp"
  shows "store self flt now inp ext md w =
    (case os_makedirs flt (get_shard_path self (compute_hash (payload inp))) w of
       (Inl e, w1) \<Rightarrow> (Inl e, w1)
     | (Inr u, w1) \<Rightarrow>
         (case os_write flt tp (payload inp) w1 of
            (Inl e, w2) \<Rightarrow> store_cleanup flt tp e w2
          | (Inr u, w2) \<Rightarrow>
              (case os_rename flt tp (get_file_path self (compute_hash (payload inp)) ext) w2 of
                 (Inl e, w3) \<Rightarrow> store_cleanup flt tp e w3
               | (Inr u, w3) \<Rightarrow>
                   (Inr \<lparr>hash = compute_hash (payload inp),
                         path = get_path self (compute_hash (payload inp)) ext,
                         size_bytes = length (payload inp), is_duplicate = False,
                         stored_at = now\<rparr>, w3))))"
  using assms by (auto simp: store_def payload_case get_path_def Let_def split: prod.splits sum.splits)

text \<open>The world after the three calls of a first write that meets no failure.\<close>

lemma store_fresh_ok:
  assumes vacant: "path_exists (stat_fault flt) w (get_file_path self (compute_hash (payload inp)) ext) = Inr False"
    and tp: "with_suffix (get_file_path self (compute_hash (payload inp)) ext) ''.tmp'' = Inr tp"
    and ok: "makedirs_fault flt = None" "write_fault flt = None" "rename_fault flt = None"
  shows "store self flt now inp ext md w =
    (Inr \<lparr>hash = compute_hash (payload inp),
          path = get_path self (compute_hash (payload inp)) ext,
          size_bytes = length (payload inp), is_duplicate = False, stored_at = now\<rparr>,
     \<lparr>files = (((mkdirs (ancestors (get_shard_path self (compute_hash (payload inp)))) (files w))
                  (tp \<mapsto> File (payload inp)))(tp := None))
                  (get_file_path self (compute_hash (payload inp)) ext \<mapsto> File (payload inp)),
      calls = calls w @ [Makedirs (get_shard_path self (compute_hash (payload inp))),
                         OpenWrite tp (payload inp),
                         Rename tp (get_file_path self (compute_hash (payload inp)) ext)]\<rparr>)"
  unfolding store_fresh [OF vacant tp]
  using ok by (simp add: os_makedirs_def os_write_def os_rename_def)

lemma store_returns_only_without_fault:
  assumes vacant: "path_exists (stat_fault flt) w (get_file_path self (compute_hash (payload inp)) ext) = Inr False"
    and tp: "with_suffix (get_file_path self (compute_hash (payload inp)) ext) ''.tmp'' = Inr tp"
    and ret: "store self flt now inp ext md w = (Inr r, w')"
  shows "makedirs_fault flt = None \<and> write_fault flt = None \<and> rename_fault flt = None"
proof -
  have "makedirs_fault flt = None"
    using ret unfolding store_fresh [OF vacant tp]
    by (auto simp: os_makedirs_def split: option.splits prod.splits)
  moreover have "write_fault flt = None"
  proof (rule ccontr)
    assume "write_fault flt \<noteq> None"
    then obtain e k where "write_fault flt = Some (e, k)" by auto
    then show False
      using ret \<open>makedirs_fault flt = None\<close> store_cleanup_fails
      unfolding store_fresh [OF vacant tp]
      by (cases k) (auto simp: os_makedirs_def os_write_def dest: arg_cong [where f = fst])
  qed
  moreover have "rename_fault flt = None"
  proof (rule ccontr)
    assume "rename_fault flt \<noteq> None"
    then obtain e where "rename_fault flt = Some e" by auto
    then show False
      using ret \<open>makedirs_fault flt = None\<close> \<open>write_fault flt = None\<close> store_cleanup_fails
      unfolding store_fresh [OF vacant tp]
      by (auto simp: os_makedirs_def os_write_def os_rename_def dest: arg_cong [where f = fst])
  qed
  ultimately show ?thesis by blast
qed

subsection \<open>Locations as strings\<close>

lemma join_sep_not_Nil: "xs \<noteq> [] \<Longrightarrow> \<forall>x \<in> set xs. x \<noteq> [] \<Longrightarrow> join_sep xs \<noteq> []"
  by (induction xs rule: join_sep.induct) auto

lemma path_str_parts:
  assumes "path_parts p \<noteq> []" "wf_parts (path_parts p)"
  shows "path_str p = path_root p @ join_sep (path_parts p)"
  using join_sep_not_Nil [of "path_parts p"] assms
  by (simp add: path_str_def wf_parts_def)

lemma path_str_inj:
  assumes "path_str p = path_str q" "path_root p = path_root q"
    and "path_parts p \<noteq> []" "wf_parts (path_parts p)"
    and "path_parts q \<noteq> []" "wf_parts (path_parts q)"
  shows "path_parts p = path_parts q"
proof -
  have "join_sep (path_parts p) = join_sep (path_parts q)"
    using assms by (simp add: path_str_parts)
  then show ?thesis
    using assms(3-6) by (intro join_sep_inj) (auto simp: wf_parts_def)
qed

lemma wf_parts_file_path:
  assumes "wf_parts (path_parts (base_path self))"
  shows "wf_parts (path_parts (get_file_path self h ext))"
  unfolding get_file_path_def truediv_def get_shard_path_def joinpath_def
  by (intro wf_parts_join wf_parts_parse_parts assms)

lemma wf_parts_init: "wf_parts (path_parts (base_path (init bp d w)))"
  by (simp add: init_def wf_parts_parse_path)

lemma filter_length_cong:
  "\<forall>x \<in> set xs. P (f x) = P (g x) \<Longrightarrow> length (filter P (map f xs)) = length (filter P (map g xs))"
  by (induction xs) auto

lemma keep_part_slice:
  assumes "is_digest h"
  shows "keep_part (py_slice h s e) \<longleftrightarrow> py_slice h s e \<noteq> []"
proof -
  have "CHR ''.'' \<notin> set (py_slice h s e)"
    using set_py_slice [of h s e] is_digest_plain(3) [OF assms] by blast
  then have "py_slice h s e \<noteq> ''.''" by auto
  then show ?thesis by (simp add: keep_part_def)
qed

lemma shard_count_digest:
  assumes "is_digest h1" "is_digest h2"
  shows "length (filter keep_part (shard_parts self h1)) = length (filter keep_part (shard_parts self h2))"
proof -
  have len: "length h1 = length h2" using assms by (simp add: is_digest_def)
  have "keep_part (py_slice h1 s e) = keep_part (py_slice h2 s e)" for s e
  proof -
    have "(py_slice h1 s e = []) = (py_slice h2 s e = [])"
      using length_py_slice_cong [OF len, of s e] by (metis length_0_conv)
    then show ?thesis by (simp add: keep_part_slice assms)
  qed
  then show ?thesis
    unfolding shard_parts_def by (intro filter_length_cong) simp
qed

lemma append_Cons_same_length:
  "xs @ a # r = ys @ b # r' \<Longrightarrow> length xs = length ys \<Longrightarrow> a = b"
  by simp

lemma get_path_inj:
  assumes d: "is_digest h1" "is_digest h2"
    and eq: "get_path (init bp d w) h1 ext = get_path (init bp d w) h2 ext"
  shows "h1 = h2"
proof -
  let ?self = "init bp d w"
  let ?rest = "filter keep_part (tl (split_sep ext))"
  let ?B = "path_parts (base_path ?self)"
  have p1: "path_parts (get_file_path ?self h1 ext) =
      (?B @ filter keep_part (shard_parts ?self h1)) @ (h1 @ hd (split_sep ext)) # ?rest"
    by (simp add: get_file_path_digest [OF d(1)] get_shard_path_plain is_digest_plain(2) [OF d(1)])
  have p2: "path_parts (get_file_path ?self h2 ext) =
      (?B @ filter keep_part (shard_parts ?self h2)) @ (h2 @ hd (split_sep ext)) # ?rest"
    by (simp add: get_file_path_digest [OF d(2)] get_shard_path_plain is_digest_plain(2) [OF d(2)])
  have r: "path_root (get_file_path ?self h1 ext) = path_root (get_file_path ?self h2 ext)"
    by (simp add: get_file_path_digest d get_shard_path_plain is_digest_plain(2) [OF d(1)]
        is_digest_plain(2) [OF d(2)])
  have "path_parts (get_file_path ?self h1 ext) = path_parts (get_file_path ?self h2 ext)"
    using eq r file_path_name(1) [OF d(1)] file_path_name(1) [OF d(2)]
      wf_parts_file_path [OF wf_parts_init]
    unfolding get_path_def by (intro path_str_inj) auto
  then have "(?B @ filter keep_part (shard_parts ?self h1)) @ (h1 @ hd (split_sep ext)) # ?rest =
      (?B @ filter keep_part (shard_parts ?self h2)) @ (h2 @ hd (split_sep ext)) # ?rest"
    by (simp only: p1 p2)
  moreover have "length (?B @ filter keep_part (shard_parts ?self h1)) =
      length (?B @ filter keep_part (shard_parts ?self h2))"
    using shard_count_digest [OF d, of ?self] by (simp only: length_append)
  ultimately have "h1 @ hd (split_sep ext) = h2 @ hd (split_sep ext)"
    by (rule append_Cons_same_length)
  then show ?thesis by simp
qed

lemma shard_parts_in_range_kept:
  assumes "is_digest h" "0 < w" "d * w \<le> 64"
  shows "filter keep_part (shard_parts (init bp d w) h) =
    map (\<lambda>i. take (nat w) (drop (nat (i * w)) h)) [0..d - 1]"
proof -
  have len: "length h = 64" using assms(1) by (simp add: is_digest_def)
  have sp: "shard_parts (init bp d w) h = map (\<lambda>i. py_slice h (i * w) (i * w + w)) [0..d - 1]"
    by (simp add: shard_parts_def init_def)
  have in_range: "py_slice h (i * w) (i * w + w) = take (nat w) (drop (nat (i * w)) h) \<and>
      py_slice h (i * w) (i * w + w) \<noteq> []"
    if "i \<in> set [0..d - 1]" for i
  proof -
    from that have i: "0 \<le> i" "i + 1 \<le> d" by auto
    have "(i + 1) * w \<le> d * w" using i assms(2) by (intro mult_right_mono) auto
    then have up: "i * w + w \<le> 64" using assms(3) by (simp add: algebra_simps)
    have lo: "0 \<le> i * w" using i assms(2) by simp
    have eq: "py_slice h (i * w) (i * w + w) = take (nat w) (drop (nat (i * w)) h)"
      using lo up assms(2) len by (simp add: py_slice_in_range)
    have "length (take (nat w) (drop (nat (i * w)) h)) = nat w"
      using lo up assms(2) len by (simp add: min_def) linarith
    then have "take (nat w) (drop (nat (i * w)) h) \<noteq> []"
      using assms(2) by auto
    with eq show ?thesis by simp
  qed
  have kept: "keep_part (py_slice h (i * w) (i * w + w))" if "i \<in> set [0..d - 1]" for i
  proof -
    from in_range [OF that] have "py_slice h (i * w) (i * w + w) \<noteq> []" by blast
    then show ?thesis using keep_part_slice [OF assms(1)] by blast
  qed
  have "filter keep_part (shard_parts (init bp d w) h) = shard_parts (init bp d w) h"
    unfolding sp by (rule filter_True) (use kept in auto)
  also have "\<dots> = map (\<lambda>i. take (nat w) (drop (nat (i * w)) h)) [0..d - 1]"
    unfolding sp using in_range by (intro map_cong) auto
  finally show ?thesis .
qed

lemma get_file_path_layout:
  assumes "is_digest h" "0 < w" "d * w \<le> 64" "sep \<notin> set ext"
  shows "get_file_path (init bp d w) h ext =
     \<lparr>path_root = path_root (parse_path bp),
      path_parts = path_parts (parse_path bp) @
        map (\<lambda>i. take (nat w) (drop (nat (i * w)) h)) [0..d - 1] @ [h @ ext]\<rparr>"
  using shard_parts_in_range_kept [OF assms(1-3), of bp]
  by (simp add: get_file_path_digest_plain_ext [OF assms(1,4)] get_shard_path_plain
      is_digest_plain(2) [OF assms(1)]) (simp add: init_def)

lemma default_base: "base_path image_storage_default =
    \<lparr>path_root = ''/'', path_parts = [''mnt'', ''raid1'', ''sai-images'']\<rparr>"
  by (simp add: image_storage_default_def init_def parse_path_def splitroot_def sep_def keep_part_def)

lemma default_layout:
  assumes "is_digest h"
  shows "get_path image_storage_default h ''.jpg'' =
    ''/mnt/raid1/sai-images/'' @ take 2 h @ ''/'' @ take 2 (drop 2 h) @ ''/'' @ h @ ''.jpg''"
proof -
  have s: "sep \<notin> set ''.jpg''" by (simp add: sep_def)
  have u: "[0..2 - 1] = [0, 1 :: int]" by (simp add: upto.simps)
  have "get_file_path (init ''/mnt/raid1/sai-images'' 2 2) h ''.jpg'' =
     \<lparr>path_root = ''/'', path_parts = [''mnt'', ''raid1'', ''sai-images'', take 2 h, take 2 (drop 2 h), h @ ''.jpg'']\<rparr>"
    using get_file_path_layout [OF assms, of 2 2 "''.jpg''" "''/mnt/raid1/sai-images''"] s u
      default_base
    by (simp add: image_storage_default_def init_def)
  then show ?thesis
    by (simp add: get_path_def image_storage_default_def path_str_def sep_def)
qed

lemma store_returns:
  assumes ret: "store self flt now inp ext md w = (Inr r, w')"
  shows "r = \<lparr>hash = compute_hash (payload inp),
              path = get_path self (compute_hash (payload inp)) ext,
              size_bytes = length (payload inp),
              is_duplicate =
                (path_exists (stat_fault flt) w (get_file_path self (compute_hash (payload inp)) ext) =
                   Inr True),
              stored_at = now\<rparr>"
proof (cases "path_exists (stat_fault flt) w (get_file_path self (compute_hash (payload inp)) ext)")
  case (Inl e)
  from store_probe_raises [OF Inl, of now md] ret show ?thesis by simp
next
  case (Inr present)
  show ?thesis
  proof (cases present)
    case True
    with Inr have dup: "path_exists (stat_fault flt) w
        (get_file_path self (compute_hash (payload inp)) ext) = Inr True"
      by simp
    from ret show ?thesis
      unfolding store_duplicate [OF dup] using dup by simp
  next
    case False
    with Inr have absent: "path_exists (stat_fault flt) w
        (get_file_path self (compute_hash (payload inp)) ext) = Inr False"
      by simp
    from temp_path_exists [OF is_digest_compute_hash, of self "payload inp" ext]
    obtain tp where tp: "with_suffix (get_file_path self (compute_hash (payload inp)) ext) ''.tmp'' = Inr tp"
      by blast
    from store_returns_only_without_fault [OF absent tp ret]
    have ok: "makedirs_fault flt = None" "write_fault flt = None" "rename_fault flt = None"
      by blast+
    from ret show ?thesis
      unfolding store_fresh_ok [OF absent tp ok] using absent by simp
  qed
qed

text \<open>A store that returned on a vacant location found it vacant.\<close>

lemma store_returned_on_vacant:
  assumes vacant: "files w (get_file_path self (compute_hash (payload inp)) ext) = None"
    and ret: "store self flt now inp ext md w = (Inr r, w')"
  shows "path_exists (stat_fault flt) w (get_file_path self (compute_hash (payload inp)) ext) = Inr False"
proof (cases "path_exists (stat_fault flt) w (get_file_path self (compute_hash (payload inp)) ext)")
  case (Inl e)
  from store_probe_raises [OF Inl, of now md] ret show ?thesis by simp
next
  case (Inr present)
  show ?thesis
  proof (cases present)
    case True
    with Inr have "path_exists (stat_fault flt) w
        (get_file_path self (compute_hash (payload inp)) ext) = Inr True"
      by simp
    from probe_True [OF this] vacant show ?thesis by simp
  next
    case False
    with Inr show ?thesis by simp
  qed
qed

text \<open>What a first write that returns has done: the object is at the final location, and the
  calls issued are the directory creation, one write and the rename.\<close>

lemma store_fresh_returns:
  assumes vacant: "path_exists (stat_fault flt) w (get_file_path self (compute_hash (payload inp)) ext) = Inr False"
    and ret: "store self flt now inp ext md w = (Inr r, w')"
  shows "files w' (get_file_path self (compute_hash (payload inp)) ext) = Some (File (payload inp))"
    and "\<exists>tp. new_calls w w' = [Makedirs (get_shard_path self (compute_hash (payload inp))),
            OpenWrite tp (payload inp),
            Rename tp (get_file_path self (compute_hash (payload inp)) ext)]"
proof -
  from temp_path_exists [OF is_digest_compute_hash, of self "payload inp" ext]
  obtain tp where tp: "with_suffix (get_file_path self (compute_hash (payload inp)) ext) ''.tmp'' = Inr tp"
    by blast
  from store_returns_only_without_fault [OF vacant tp ret]
  have ok: "makedirs_fault flt = None" "write_fault flt = None" "rename_fault flt = None"
    by blast+
  from ret have w': "w' = \<lparr>files = (((mkdirs (ancestors (get_shard_path self (compute_hash (payload inp)))) (files w))
                  (tp \<mapsto> File (payload inp)))(tp := None))
                  (get_file_path self (compute_hash (payload inp)) ext \<mapsto> File (payload inp)),
      calls = calls w @ [Makedirs (get_shard_path self (compute_hash (payload inp))),
                         OpenWrite tp (payload inp),
                         Rename tp (get_file_path self (compute_hash (payload inp)) ext)]\<rparr>"
    unfolding store_fresh_ok [OF vacant tp ok] by simp
  show "files w' (get_file_path self (compute_hash (payload inp)) ext) = Some (File (payload inp))"
    by (simp add: w')
  show "\<exists>tp. new_calls w w' = [Makedirs (get_shard_path self (compute_hash (payload inp))),
            OpenWrite tp (payload inp),
            Rename tp (get_file_path self (compute_hash (payload inp)) ext)]"
    by (simp add: w' new_calls_def)
qed

subsection \<open>The worked example\<close>

text \<open>The digest of \<^verbatim>\<open>b"hello"\<close>, computed by the definitions above.\<close>

lemma hello_digest: "compute_hash hello = hello_hash"
  unfolding hello_hash_def by code_simp

lemma is_digest_hello_hash: "is_digest hello_hash"
  using is_digest_compute_hash [of hello] by (simp only: hello_digest)

lemma hello_shard_path: "get_shard_path image_storage_default hello_hash = hello_dir"
  unfolding hello_hash_def hello_dir_def by code_simp

lemma hello_file_path_jpg: "get_file_path image_storage_default hello_hash ''.jpg'' = hello_jpg"
  unfolding hello_hash_def hello_jpg_def by code_simp

lemma hello_file_path_tmp: "get_file_path image_storage_default hello_hash ''.tmp'' = hello_tmp"
  unfolding hello_hash_def hello_tmp_def by code_simp

lemma hello_get_path_jpg: "get_path image_storage_default hello_hash ''.jpg'' =
    ''/mnt/raid1/sai-images/2c/f2/2cf24dba5fb0a30e26e83b2ac5b9e29e1b161e5c1fa7425e73043362938b9824.jpg''"
  unfolding hello_hash_def by code_simp

lemma hello_get_path_tmp: "get_path image_storage_default hello_hash ''.tmp'' =
    ''/mnt/raid1/sai-images/2c/f2/2cf24dba5fb0a30e26e83b2ac5b9e29e1b161e5c1fa7425e73043362938b9824.tmp''"
  unfolding hello_hash_def by code_simp

lemma hello_temp_of_jpg: "with_suffix hello_jpg ''.tmp'' = Inr hello_tmp"
  using temp_path_jpg [OF is_digest_hello_hash, of image_storage_default]
  by (simp only: hello_file_path_jpg hello_file_path_tmp)

lemma hello_temp_of_tmp: "with_suffix hello_tmp ''.tmp'' = Inr hello_tmp"
  using temp_path_tmp_is_final [OF is_digest_hello_hash, of image_storage_default]
  by (simp only: hello_file_path_tmp)

lemma hello_paths_distinct: "hello_jpg \<noteq> hello_tmp"
  by (simp add: hello_jpg_def hello_tmp_def)

lemma hello_dirs_files: "hello_dirs hello_jpg = None" "hello_dirs hello_tmp = None"
  unfolding hello_dirs_def
  by (rule trans [OF mkdirs_other]; simp add: ancestors_def hello_dir_def hello_jpg_def hello_tmp_def)+

lemma length_hello: "length hello = 5" "payload (Bytes hello) = hello" "take (Suc 0) hello = [0x68]"
  by (simp_all add: hello_def payload_def)

lemma store_hello:
  "store image_storage_default no_faults now (Bytes hello) ''.jpg'' md empty_world =
    (Inr \<lparr>hash = hello_hash,
          path = ''/mnt/raid1/sai-images/2c/f2/2cf24dba5fb0a30e26e83b2ac5b9e29e1b161e5c1fa7425e73043362938b9824.jpg'',
          size_bytes = 5, is_duplicate = False, stored_at = now\<rparr>, stored_hello)"
proof -
  have vacant: "files empty_world (get_file_path image_storage_default (compute_hash (payload (Bytes hello))) ''.jpg'') = None"
    by (simp add: empty_world_def)
  have absent: "path_exists (stat_fault no_faults) empty_world
      (get_file_path image_storage_default (compute_hash (payload (Bytes hello))) ''.jpg'') = Inr False"
    by (rule probe_absent [OF _ vacant]) (simp add: no_faults_def)
  have tp: "with_suffix (get_file_path image_storage_default (compute_hash (payload (Bytes hello))) ''.jpg'') ''.tmp'' = Inr hello_tmp"
    by (simp add: length_hello hello_digest hello_file_path_jpg hello_temp_of_jpg)
  have ok: "makedirs_fault no_faults = None" "write_fault no_faults = None" "rename_fault no_faults = None"
    by (simp_all add: no_faults_def)
  have fs: "(hello_dirs(hello_tmp \<mapsto> File hello, hello_tmp := None))(hello_jpg \<mapsto> File hello) =
      hello_dirs(hello_jpg \<mapsto> File hello)"
    using hello_dirs_files by (intro ext) simp
  show ?thesis
    unfolding store_fresh_ok [OF absent tp ok]
    using fs
    by (simp add: length_hello hello_digest hello_file_path_jpg hello_shard_path hello_get_path_jpg
        stored_hello_def empty_world_def hello_dirs_def)
qed

lemma store_hello_disk_full:
  "store image_storage_default disk_full now (Bytes hello) ''.jpg'' md empty_world =
    (Inl (OSError 13), leftover)"
proof -
  have vacant: "files empty_world (get_file_path image_storage_default (compute_hash (payload (Bytes hello))) ''.jpg'') = None"
    by (simp add: empty_world_def)
  have absent: "path_exists (stat_fault disk_full) empty_world
      (get_file_path image_storage_default (compute_hash (payload (Bytes hello))) ''.jpg'') = Inr False"
    by (rule probe_absent [OF _ vacant]) (simp add: disk_full_def)
  have tp: "with_suffix (get_file_path image_storage_default (compute_hash (payload (Bytes hello))) ''.jpg'') ''.tmp'' = Inr hello_tmp"
    by (simp add: length_hello hello_digest hello_file_path_jpg hello_temp_of_jpg)
  show ?thesis
    unfolding store_fresh [OF absent tp]
    by (simp add: length_hello hello_digest hello_file_path_jpg hello_shard_path
        os_makedirs_def os_write_def store_cleanup_def os_remove_def path_exists_no_fault
        disk_full_def leftover_def empty_world_def hello_dirs_def)
qed

subsection \<open>The failure paths of store\<close>

text \<open>After the directories are made, the temporary path and the final location hold what they
  held before: both are longer than the shard directory.\<close>

lemma makedirs_keeps_locations:
  assumes tp: "with_suffix (get_file_path self (compute_hash data) ext) ''.tmp'' = Inr tp"
    and mk: "makedirs_fault flt = None"
  shows "\<exists>w1. os_makedirs flt (get_shard_path self (compute_hash data)) w = (Inr (), w1) \<and>
      calls w1 = calls w @ [Makedirs (get_shard_path self (compute_hash data))] \<and>
      files w1 tp = files w tp \<and>
      files w1 (get_file_path self (compute_hash data) ext) =
        files w (get_file_path self (compute_hash data) ext)"
proof -
  let ?sd = "get_shard_path self (compute_hash data)"
  let ?fp = "get_file_path self (compute_hash data) ext"
  have l1: "length (path_parts ?sd) < length (path_parts ?fp)"
    by (rule file_path_longer [OF is_digest_compute_hash])
  from temp_path_exists [OF is_digest_compute_hash, of self data ext] tp
  have l2: "length (path_parts ?sd) < length (path_parts tp)"
    using l1 by auto
  obtain r w1 where w1: "os_makedirs flt ?sd w = (r, w1)" by (cases "os_makedirs flt ?sd w")
  have "r = Inr ()"
    using os_makedirs_result [of flt ?sd w] mk w1 by simp
  moreover have "calls w1 = calls w @ [Makedirs ?sd]"
    using os_makedirs_calls [of flt ?sd w] w1 by simp
  moreover have "files w1 tp = files w tp"
    using os_makedirs_files [OF l2, of flt w] w1 by simp
  moreover have "files w1 ?fp = files w ?fp"
    using os_makedirs_files [OF l1, of flt w] w1 by simp
  ultimately show ?thesis using w1 by blast
qed

text \<open>Every store that reaches the write issues it on the path \<open>with_suffix\<close> gives.\<close>

lemma store_write_target:
  assumes vacant: "path_exists (stat_fault flt) w (get_file_path self (compute_hash (payload inp)) ext) = Inr False"
    and tp: "with_suffix (get_file_path self (compute_hash (payload inp)) ext) ''.tmp'' = Inr tp"
    and mk: "makedirs_fault flt = None"
  shows "filter is_write (new_calls w (snd (store self flt now inp ext md w))) =
    [OpenWrite tp (payload inp)]"
proof -
  from makedirs_keeps_locations [OF tp mk, of w]
  obtain w1 where w1: "os_makedirs flt (get_shard_path self (compute_hash (payload inp))) w = (Inr (), w1)"
    and c1: "calls w1 = calls w @ [Makedirs (get_shard_path self (compute_hash (payload inp)))]"
    by auto
  show ?thesis
    unfolding store_fresh [OF vacant tp] w1
    using c1
    by (cases "cleanup_stat_fault flt")
      (auto simp: os_write_def os_rename_def store_cleanup_def path_exists_no_fault path_exists_fault
        os_remove_def new_calls_def is_write_def split: option.splits node.splits)
qed

subsection \<open>Configurations without sharding, and digests of any shape\<close>

lemma parse_parts_empty: "\<forall>x \<in> set xs. x = [] \<Longrightarrow> parse_parts xs = \<lparr>path_root = [], path_parts = []\<rparr>"
proof -
  assume a: "\<forall>x \<in> set xs. x = []"
  then have "\<forall>x \<in> set xs. sep \<notin> set x" by auto
  from parse_parts_plain [OF this] a show ?thesis
    by (simp add: keep_part_def filter_empty_conv)
qed

lemma py_slice_zero_width: "py_slice h s s = []"
  by (simp add: py_slice_def Let_def)

lemma shard_parts_unsharded:
  assumes "shard_depth self \<le> 0 \<or> shard_width self = 0"
  shows "\<forall>x \<in> set (shard_parts self h). x = []"
  using assms by (auto simp: shard_parts_def py_slice_zero_width)

lemma get_shard_path_unsharded:
  assumes "shard_depth self \<le> 0 \<or> shard_width self = 0"
  shows "get_shard_path self h = base_path self"
  using parse_parts_empty [OF shard_parts_unsharded [OF assms, of h]]
  by (simp add: get_shard_path_def joinpath_def join_parsed_parts_def)

lemma py_slice_out_of_range: "int (length h) \<le> s \<Longrightarrow> py_slice h s e = []"
  by (simp add: py_slice_def Let_def)

lemma get_shard_path_Nil: "get_shard_path self [] = base_path self"
proof -
  have "\<forall>x \<in> set (shard_parts self []). x = []"
    by (auto simp: shard_parts_def py_slice_Nil)
  from parse_parts_empty [OF this] show ?thesis
    by (simp add: get_shard_path_def joinpath_def join_parsed_parts_def)
qed

lemma parse_path_relative:
  assumes "s = [] \<or> hd s \<noteq> sep"
  shows "path_root (parse_path s) = []"
  using splitroot_relative [OF assms] by (simp add: parse_path_def)

lemma under_root_file_path:
  assumes "sep \<notin> set h" "h \<noteq> [] \<or> ext = [] \<or> hd ext \<noteq> sep"
  shows "under_root self (get_file_path self h ext)"
proof -
  have "h @ ext = [] \<or> hd (h @ ext) \<noteq> sep"
    using assms by (cases h) auto
  then have rel: "path_root (parse_path (h @ ext)) = []"
    by (rule parse_path_relative)
  have "get_file_path self h ext =
      \<lparr>path_root = path_root (base_path self),
       path_parts = path_parts (base_path self) @
         (filter keep_part (shard_parts self h) @ path_parts (parse_path (h @ ext)))\<rparr>"
    using rel
    by (simp add: get_file_path_def truediv_def joinpath_def join_parsed_parts_def
        get_shard_path_plain [OF assms(1)])
  then show ?thesis by (simp add: under_root_def)
qed

lemma default_shard_parts_ab: "shard_parts image_storage_default ''ab'' = [''ab'', []]"
  by (simp add: shard_parts_def image_storage_default_def init_def py_slice_def upto.simps)

lemma short_digest_location_unused:
  assumes "is_digest h'"
  shows "get_path image_storage_default ''ab'' ext \<noteq> get_path image_storage_default h' ext"
proof
  let ?self = "image_storage_default"
  let ?rest = "filter keep_part (tl (split_sep ext))"
  assume eq: "get_path ?self ''ab'' ext = get_path ?self h' ext"
  have sab: "sep \<notin> set ''ab''" by (simp add: sep_def)
  have kab: "keep_part (''ab'' @ x)" for x by (simp add: keep_part_def)
  have p1: "get_file_path ?self ''ab'' ext =
      \<lparr>path_root = path_root (base_path ?self),
       path_parts = path_parts (base_path ?self) @ [''ab''] @ (''ab'' @ hd (split_sep ext)) # ?rest\<rparr>"
    using kab
    by (simp add: get_file_path_plain [OF _ sab] get_shard_path_plain [OF sab]
        default_shard_parts_ab keep_part_def)
  have "filter keep_part (shard_parts (init ''/mnt/raid1/sai-images'' 2 2) h') =
      map (\<lambda>i. take (nat 2) (drop (nat (i * 2)) h')) [0..2 - 1]"
    by (rule shard_parts_in_range_kept [OF assms]) simp_all
  then have two: "length (filter keep_part (shard_parts ?self h')) = 2"
    by (simp add: image_storage_default_def upto.simps)
  have p2: "get_file_path ?self h' ext =
      \<lparr>path_root = path_root (base_path ?self),
       path_parts = path_parts (base_path ?self) @ filter keep_part (shard_parts ?self h') @
         (h' @ hd (split_sep ext)) # ?rest\<rparr>"
    by (simp add: get_file_path_digest [OF assms] get_shard_path_plain is_digest_plain(2) [OF assms])
  have wf: "wf_parts (path_parts (base_path ?self))"
    unfolding image_storage_default_def by (rule wf_parts_init)
  have "path_parts (get_file_path ?self ''ab'' ext) = path_parts (get_file_path ?self h' ext)"
    using eq unfolding get_path_def
    by (intro path_str_inj) (simp_all add: p1 p2 wf_parts_file_path [OF wf, unfolded p1 p2, simplified]
        wf_parts_file_path [OF wf, of "''ab''" ext, unfolded p1, simplified]
        wf_parts_file_path [OF wf, of h' ext, unfolded p2, simplified])
  then have "length (path_parts (get_file_path ?self ''ab'' ext)) =
      length (path_parts (get_file_path ?self h' ext))"
    by simp
  then show False
    by (simp add: p1 p2 two)
qed

lemma store_fresh_succeeds:
  assumes "files wld (get_file_path self (compute_hash (payload inp)) ext) = None"
  shows "\<exists>wld'. store self no_faults now inp ext md wld =
     (Inr \<lparr>hash = compute_hash (payload inp),
           path = get_path self (compute_hash (payload inp)) ext,
           size_bytes = length (payload inp), is_duplicate = False, stored_at = now\<rparr>, wld')"
proof -
  from temp_path_exists [OF is_digest_compute_hash, of self "payload inp" ext]
  obtain tp where tp: "with_suffix (get_file_path self (compute_hash (payload inp)) ext) ''.tmp'' = Inr tp"
    by blast
  have ok: "makedirs_fault no_faults = None" "write_fault no_faults = None" "rename_fault no_faults = None"
    by (simp_all add: no_faults_def)
  have absent: "path_exists (stat_fault no_faults) wld
      (get_file_path self (compute_hash (payload inp)) ext) = Inr False"
    by (rule probe_absent [OF _ assms]) (simp add: no_faults_def)
  show ?thesis
    unfolding store_fresh_ok [OF absent tp ok] by blast
qed

lemma unsharded_paths:
  "parse_path ''/mnt/raid1/sai-images'' = \<lparr>path_root = ''/'', path_parts = [''mnt'', ''raid1'', ''sai-images'']\<rparr>"
  "get_path (init ''/mnt/raid1/sai-images'' 2 0) hello_hash ''.jpg'' =
     ''/mnt/raid1/sai-images/2cf24dba5fb0a30e26e83b2ac5b9e29e1b161e5c1fa7425e73043362938b9824.jpg''"
  "get_path (init ''/mnt/raid1/sai-images'' (- 1) 2) hello_hash ''.jpg'' =
     ''/mnt/raid1/sai-images/2cf24dba5fb0a30e26e83b2ac5b9e29e1b161e5c1fa7425e73043362938b9824.jpg''"
  unfolding hello_hash_def by code_simp+

subsection \<open>The layout string\<close>

lemma split_sep_append_sep: "split_sep (a @ sep # b) = split_sep a @ split_sep b"
proof (induction a)
  case Nil
  then show ?case by simp
next
  case (Cons c a)
  then show ?case
    using split_sep_not_Nil [of a] by (cases "split_sep a") auto
qed

lemma split_sep_components:
  "\<forall>x \<in> set xs. sep \<notin> set x \<Longrightarrow>
     split_sep (concat (map (\<lambda>x. x @ [sep]) xs) @ t) = xs @ split_sep t"
proof (induction xs)
  case Nil
  then show ?case by simp
next
  case (Cons x xs)
  then have "split_sep (x @ sep # (concat (map (\<lambda>x. x @ [sep]) xs) @ t)) =
      split_sep x @ xs @ split_sep t"
    by (simp only: split_sep_append_sep) simp
  then show ?case using Cons.prems by (simp add: split_sep_plain)
qed

lemma concat_sep_shift:
  "concat (map (\<lambda>x. sep # x) xs) @ sep # t = sep # concat (map (\<lambda>x. x @ [sep]) xs) @ t"
  by (induction xs) auto

lemma parse_path_append_sep:
  assumes "path_parts (parse_path bp) \<noteq> []"
  shows "parse_path (bp @ sep # x) =
    \<lparr>path_root = path_root (parse_path bp),
     path_parts = path_parts (parse_path bp) @ filter keep_part (split_sep x)\<rparr>"
proof (cases "bp \<noteq> [] \<and> hd bp = sep")
  case False
  then have "splitroot bp = ([], bp)" by (auto simp: splitroot_def)
  moreover from assms have "bp \<noteq> []"
    by (auto simp: parse_path_def splitroot_def keep_part_def)
  with False have "hd (bp @ sep # x) \<noteq> sep" by simp
  then have "splitroot (bp @ sep # x) = ([], bp @ sep # x)" by (simp add: splitroot_relative)
  ultimately show ?thesis
    by (simp add: parse_path_def split_sep_append_sep)
next
  case True
  let ?s = "dropWhile (\<lambda>c. c = sep) bp"
  have "?s \<noteq> []"
  proof
    assume "?s = []"
    with True have "splitroot bp = ([sep, sep], []) \<or> splitroot bp = ([sep], [])"
      by (auto simp: splitroot_def Let_def)
    with assms show False
      by (auto simp: parse_path_def keep_part_def)
  qed
  then have "\<not> (\<forall>c \<in> set bp. c = sep)"
    by (simp add: dropWhile_eq_Nil_conv)
  then obtain c where c: "c \<in> set bp" "c \<noteq> sep"
    by blast
  have dw: "dropWhile (\<lambda>c. c = sep) (bp @ sep # x) = ?s @ sep # x"
    using c by (intro dropWhile_append1) auto
  have len: "length (bp @ sep # x) - length (?s @ sep # x) = length bp - length ?s"
    by simp
  from True have hd: "bp @ sep # x \<noteq> [] \<and> hd (bp @ sep # x) = sep" by simp
  have "splitroot (bp @ sep # x) = (fst (splitroot bp), snd (splitroot bp) @ sep # x)"
    using True hd unfolding splitroot_def Let_def dw len by simp
  then show ?thesis
    by (cases "splitroot bp") (simp add: parse_path_def split_sep_append_sep)
qed

lemma get_file_path_layout_string:
  assumes h: "h \<noteq> []" "sep \<notin> set h" and bp: "path_parts (parse_path bp) \<noteq> []"
  shows "get_file_path (init bp d w) h ext =
    parse_path (bp @ concat (map (\<lambda>i. sep # py_slice h (i * w) (i * w + w)) [0..d - 1]) @
      sep # h @ ext)"
proof -
  let ?self = "init bp d w"
  have sl: "shard_parts ?self h = map (\<lambda>i. py_slice h (i * w) (i * w + w)) [0..d - 1]"
    by (simp add: shard_parts_def init_def)
  have "concat (map (\<lambda>i. sep # py_slice h (i * w) (i * w + w)) [0..d - 1]) @ sep # h @ ext =
      concat (map (\<lambda>x. sep # x) (shard_parts ?self h)) @ sep # (h @ ext)"
    by (simp add: sl o_def)
  also have "\<dots> = sep # concat (map (\<lambda>x. x @ [sep]) (shard_parts ?self h)) @ (h @ ext)"
    by (rule concat_sep_shift)
  finally have str: "bp @ concat (map (\<lambda>i. sep # py_slice h (i * w) (i * w + w)) [0..d - 1]) @ sep # h @ ext =
      bp @ sep # (concat (map (\<lambda>x. x @ [sep]) (shard_parts ?self h)) @ (h @ ext))"
    by simp
  have "split_sep (concat (map (\<lambda>x. x @ [sep]) (shard_parts ?self h)) @ (h @ ext)) =
      shard_parts ?self h @ (h @ hd (split_sep ext)) # tl (split_sep ext)"
    using shard_parts_no_sep [OF h(2), of ?self]
    by (simp add: split_sep_components split_sep_append [OF h(2)])
  then have "parse_path (bp @ sep # (concat (map (\<lambda>x. x @ [sep]) (shard_parts ?self h)) @ (h @ ext))) =
      \<lparr>path_root = path_root (parse_path bp),
       path_parts = path_parts (parse_path bp) @ filter keep_part (shard_parts ?self h) @
         filter keep_part ((h @ hd (split_sep ext)) # tl (split_sep ext))\<rparr>"
    by (simp add: parse_path_append_sep [OF bp])
  moreover have "get_file_path ?self h ext =
      \<lparr>path_root = path_root (parse_path bp),
       path_parts = path_parts (parse_path bp) @ filter keep_part (shard_parts ?self h) @
         filter keep_part ((h @ hd (split_sep ext)) # tl (split_sep ext))\<rparr>"
    by (simp add: get_file_path_plain [OF h] get_shard_path_plain [OF h(2)]) (simp add: init_def)
  ultimately show ?thesis by (simp only: str)
qed

subsection \<open>Locations inside the root, and the existence check\<close>

lemma shard_parts_chars: "x \<in> set (shard_parts self h) \<Longrightarrow> set x \<subseteq> set h"
proof -
  assume "x \<in> set (shard_parts self h)"
  then obtain s e where "x = py_slice h s e"
    by (auto simp: shard_parts_def)
  then show ?thesis by (simp add: set_py_slice)
qed

lemma inside_root_file_path:
  assumes plain: "sep \<notin> set h" and nodot: "CHR ''.'' \<notin> set h"
    and ext: "sep \<notin> set ext" "ext \<noteq> ''..''"
  shows "inside_root self (get_file_path self h ext)"
proof -
  have "sep \<notin> set (h @ ext)" using plain ext(1) by simp
  then have name: "parse_path (h @ ext) = \<lparr>path_root = [], path_parts = filter keep_part [h @ ext]\<rparr>"
    by (rule parse_path_plain)
  have fp: "get_file_path self h ext =
      \<lparr>path_root = path_root (base_path self),
       path_parts = path_parts (base_path self) @
         (filter keep_part (shard_parts self h) @ filter keep_part [h @ ext])\<rparr>"
    by (simp add: get_file_path_def truediv_def joinpath_def join_parsed_parts_def
        get_shard_path_plain [OF plain] name)
  have slices: "''..'' \<notin> set (shard_parts self h)"
  proof
    assume "''..'' \<in> set (shard_parts self h)"
    from shard_parts_chars [OF this] nodot show False by simp
  qed
  have last: "h @ ext \<noteq> ''..''"
  proof (cases h)
    case Nil
    with ext(2) show ?thesis by simp
  next
    case (Cons c cs)
    with nodot have "c \<noteq> CHR ''.''" by auto
    with Cons show ?thesis by auto
  qed
  from slices last show ?thesis
    unfolding inside_root_def under_root_def fp by auto
qed

lemma exists_without_fault:
  "stat_fault flt = None \<Longrightarrow>
     exists self flt h ext w = Inr (files w (get_file_path self h ext) \<noteq> None)"
  by (simp add: exists_def path_exists_no_fault)

lemma probe_ignored:
  "files w p = None \<Longrightarrow> stat_fault flt = None \<or> (\<exists>e. stat_fault flt = Some e \<and> ignore_error e) \<Longrightarrow>
     path_exists (stat_fault flt) w p = Inr False"
  by (auto simp: path_exists_def os_stat_def ignore_error_def)

section \<open>The claims\<close>

subsection \<open>Claim C1\<close>

text \<open>
  C1. Storing \<^verbatim>\<open>b"hello"\<close> with the extension \<^verbatim>\<open>.tmp\<close> into an empty file system: the path the
  payload is written to before the rename is the final location itself, since
  \<^verbatim>\<open>with_suffix('.tmp')\<close> replaces a suffix that already is \<^verbatim>\<open>.tmp\<close>; the rename then moves
  the file onto itself.
\<close>

theorem tmp_extension_writes_to_final_location:
  "get_file_path image_storage_default (compute_hash hello) ''.tmp'' = hello_tmp \<and>
   with_suffix hello_tmp ''.tmp'' = Inr hello_tmp \<and>
   store image_storage_default no_faults 0 (Bytes hello) ''.tmp'' (None :: unit option) empty_world =
     (Inr \<lparr>hash = hello_hash,
           path = ''/mnt/raid1/sai-images/2c/f2/2cf24dba5fb0a30e26e83b2ac5b9e29e1b161e5c1fa7425e73043362938b9824.tmp'',
           size_bytes = 5, is_duplicate = False, stored_at = 0\<rparr>,
      \<lparr>files = hello_dirs(hello_tmp \<mapsto> File hello),
       calls = [Makedirs hello_dir, OpenWrite hello_tmp hello, Rename hello_tmp hello_tmp]\<rparr>)"
proof -
  have vacant: "files empty_world (get_file_path image_storage_default (compute_hash (payload (Bytes hello))) ''.tmp'') = None"
    by (simp add: empty_world_def)
  have absent: "path_exists (stat_fault no_faults) empty_world
      (get_file_path image_storage_default (compute_hash (payload (Bytes hello))) ''.tmp'') = Inr False"
    by (rule probe_absent [OF _ vacant]) (simp add: no_faults_def)
  have tp: "with_suffix (get_file_path image_storage_default (compute_hash (payload (Bytes hello))) ''.tmp'') ''.tmp'' = Inr hello_tmp"
    by (simp add: length_hello hello_digest hello_file_path_tmp hello_temp_of_tmp)
  have ok: "makedirs_fault no_faults = None" "write_fault no_faults = None" "rename_fault no_faults = None"
    by (simp_all add: no_faults_def)
  have "store image_storage_default no_faults 0 (Bytes hello) ''.tmp'' (None :: unit option) empty_world =
     (Inr \<lparr>hash = hello_hash,
           path = ''/mnt/raid1/sai-images/2c/f2/2cf24dba5fb0a30e26e83b2ac5b9e29e1b161e5c1fa7425e73043362938b9824.tmp'',
           size_bytes = 5, is_duplicate = False, stored_at = 0\<rparr>,
      \<lparr>files = hello_dirs(hello_tmp \<mapsto> File hello),
       calls = [Makedirs hello_dir, OpenWrite hello_tmp hello, Rename hello_tmp hello_tmp]\<rparr>)"
    unfolding store_fresh_ok [OF absent tp ok]
    by (simp add: length_hello hello_digest hello_file_path_tmp hello_shard_path hello_get_path_tmp
        empty_world_def hello_dirs_def)
  then show ?thesis
    by (simp add: hello_digest hello_file_path_tmp hello_temp_of_tmp)
qed

subsection \<open>Claim C2\<close>

text \<open>
  C2 (as amended). The constructor checks nothing and raises nothing: for every root string,
  depth and width it returns a store that holds the parsed root and the two numbers as given.
  With a depth of zero or less, or a width of zero, the shard directory is the root itself and
  the location of a digest is the root joined with the digest followed by the extension; the
  operations work on such a store as on any other, and a first store that meets no failure
  returns its result.
\<close>

theorem constructor_accepts_every_configuration:
  "base_path (init bp d w) = parse_path bp \<and> shard_depth (init bp d w) = d \<and>
   shard_width (init bp d w) = w \<and>
   (d \<le> 0 \<or> w = 0 \<longrightarrow>
      get_shard_path (init bp d w) h = parse_path bp \<and>
      get_file_path (init bp d w) h ext = truediv (parse_path bp) (h @ ext)) \<and>
   (files wld (get_file_path (init bp d w) (compute_hash (payload inp)) ext') = None \<longrightarrow>
      (\<exists>wld'. store (init bp d w) no_faults now inp ext' md wld =
         (Inr \<lparr>hash = compute_hash (payload inp),
               path = get_path (init bp d w) (compute_hash (payload inp)) ext',
               size_bytes = length (payload inp), is_duplicate = False, stored_at = now\<rparr>, wld')))"
proof (intro conjI impI)
  show "base_path (init bp d w) = parse_path bp" "shard_depth (init bp d w) = d"
    "shard_width (init bp d w) = w"
    by (simp_all add: init_def)
next
  assume "d \<le> 0 \<or> w = 0"
  then have u: "shard_depth (init bp d w) \<le> 0 \<or> shard_width (init bp d w) = 0"
    by (simp add: init_def)
  from get_shard_path_unsharded [OF u, of h]
  show "get_shard_path (init bp d w) h = parse_path bp"
    by (simp add: init_def)
  then show "get_file_path (init bp d w) h ext = truediv (parse_path bp) (h @ ext)"
    by (simp add: get_file_path_def)
next
  assume "files wld (get_file_path (init bp d w) (compute_hash (payload inp)) ext') = None"
  then show "\<exists>wld'. store (init bp d w) no_faults now inp ext' md wld =
         (Inr \<lparr>hash = compute_hash (payload inp),
               path = get_path (init bp d w) (compute_hash (payload inp)) ext',
               size_bytes = length (payload inp), is_duplicate = False, stored_at = now\<rparr>, wld')"
    by (rule store_fresh_succeeds)
qed

theorem constructor_accepts_every_configuration_witness:
  "((2::int) \<le> 0 \<or> (0::int) = 0) \<and>
   base_path (init ''/mnt/raid1/sai-images'' 2 0) =
     \<lparr>path_root = ''/'', path_parts = [''mnt'', ''raid1'', ''sai-images'']\<rparr> \<and>
   shard_depth (init ''/mnt/raid1/sai-images'' 2 0) = 2 \<and>
   shard_width (init ''/mnt/raid1/sai-images'' 2 0) = 0 \<and>
   get_shard_path (init ''/mnt/raid1/sai-images'' 2 0) hello_hash =
     \<lparr>path_root = ''/'', path_parts = [''mnt'', ''raid1'', ''sai-images'']\<rparr> \<and>
   files empty_world (get_file_path (init ''/mnt/raid1/sai-images'' 2 0)
     (compute_hash (payload (Bytes hello))) ''.jpg'') = None \<and>
   fst (store (init ''/mnt/raid1/sai-images'' 2 0) no_faults 0 (Bytes hello) ''.jpg''
          (None :: unit option) empty_world) =
     Inr \<lparr>hash = hello_hash,
          path = ''/mnt/raid1/sai-images/2cf24dba5fb0a30e26e83b2ac5b9e29e1b161e5c1fa7425e73043362938b9824.jpg'',
          size_bytes = 5, is_duplicate = False, stored_at = 0\<rparr>"
proof -
  have vacant: "files empty_world (get_file_path (init ''/mnt/raid1/sai-images'' 2 0)
     (compute_hash (payload (Bytes hello))) ''.jpg'') = None"
    by (simp add: empty_world_def)
  from constructor_accepts_every_configuration [of "''/mnt/raid1/sai-images''" 2 0 hello_hash "''.jpg''"
      empty_world "Bytes hello" "''.jpg''" 0 "None :: unit option"] vacant
  show ?thesis
    by (auto simp: length_hello hello_digest unsharded_paths)
qed

theorem invalid_configuration_is_accepted:
  "init ''/mnt/raid1/sai-images'' 2 0 =
     \<lparr>base_path = \<lparr>path_root = ''/'', path_parts = [''mnt'', ''raid1'', ''sai-images'']\<rparr>,
      shard_depth = 2, shard_width = 0\<rparr> \<and>
   init ''/mnt/raid1/sai-images'' (- 1) 2 =
     \<lparr>base_path = \<lparr>path_root = ''/'', path_parts = [''mnt'', ''raid1'', ''sai-images'']\<rparr>,
      shard_depth = - 1, shard_width = 2\<rparr> \<and>
   get_path (init ''/mnt/raid1/sai-images'' 2 0) hello_hash ''.jpg'' =
     ''/mnt/raid1/sai-images/2cf24dba5fb0a30e26e83b2ac5b9e29e1b161e5c1fa7425e73043362938b9824.jpg'' \<and>
   get_path (init ''/mnt/raid1/sai-images'' (- 1) 2) hello_hash ''.jpg'' =
     ''/mnt/raid1/sai-images/2cf24dba5fb0a30e26e83b2ac5b9e29e1b161e5c1fa7425e73043362938b9824.jpg'' \<and>
   exists (init ''/mnt/raid1/sai-images'' (- 1) 2) no_faults hello_hash ''.jpg'' empty_world = Inr False \<and>
   fst (store (init ''/mnt/raid1/sai-images'' 2 0) no_faults 0 (Bytes hello) ''.jpg''
          (None :: unit option) empty_world) =
     Inr \<lparr>hash = hello_hash,
          path = ''/mnt/raid1/sai-images/2cf24dba5fb0a30e26e83b2ac5b9e29e1b161e5c1fa7425e73043362938b9824.jpg'',
          size_bytes = 5, is_duplicate = False, stored_at = 0\<rparr>"
proof -
  have vacant: "files empty_world (get_file_path (init ''/mnt/raid1/sai-images'' 2 0)
     (compute_hash (payload (Bytes hello))) ''.jpg'') = None"
    by (simp add: empty_world_def)
  from store_fresh_succeeds [OF vacant, of 0 "None :: unit option"]
  have "fst (store (init ''/mnt/raid1/sai-images'' 2 0) no_faults 0 (Bytes hello) ''.jpg''
          (None :: unit option) empty_world) =
     Inr \<lparr>hash = hello_hash,
          path = ''/mnt/raid1/sai-images/2cf24dba5fb0a30e26e83b2ac5b9e29e1b161e5c1fa7425e73043362938b9824.jpg'',
          size_bytes = 5, is_duplicate = False, stored_at = 0\<rparr>"
    by (auto simp: length_hello hello_digest unsharded_paths)
  moreover have "init ''/mnt/raid1/sai-images'' 2 0 =
     \<lparr>base_path = \<lparr>path_root = ''/'', path_parts = [''mnt'', ''raid1'', ''sai-images'']\<rparr>,
      shard_depth = 2, shard_width = 0\<rparr>"
    by (simp add: init_def unsharded_paths(1))
  moreover have "init ''/mnt/raid1/sai-images'' (- 1) 2 =
     \<lparr>base_path = \<lparr>path_root = ''/'', path_parts = [''mnt'', ''raid1'', ''sai-images'']\<rparr>,
      shard_depth = - 1, shard_width = 2\<rparr>"
    by (simp add: init_def unsharded_paths(1))
  moreover have "exists (init ''/mnt/raid1/sai-images'' (- 1) 2) no_faults hello_hash ''.jpg'' empty_world =
      Inr False"
    by (simp add: exists_def path_exists_no_fault no_faults_def empty_world_def)
  moreover note unsharded_paths(2) unsharded_paths(3)
  ultimately show ?thesis
    by - (intro conjI, assumption+)
qed

subsection \<open>Claim C3\<close>




subsection \<open>Claim C4\<close>

text \<open>
  C4 (as amended). For a fixed configuration and extension the location of a digest is a
  function of the digest alone: \<open>get_path\<close> takes no file system and no operation returns a new configuration,
  so no call of \<open>store\<close>, \<open>fetch\<close> or \<open>delete\<close> changes it. For a full-length digest and a root
  that names at least one component, the location is the path that the string
  \<^verbatim>\<open>{root}/{digest[0:w]}/{digest[w:2w]}/.../{digest}{extension}\<close> denotes, for every depth and
  width (an empty component vanishes, as in every path). When the width is positive, the \<open>d\<close>
  slices fit into the digest and the extension has no separator, each of the \<open>d\<close> slices is a
  directory level; with the default configuration and extension the location is the string
  \<^verbatim>\<open>/mnt/raid1/sai-images/ab/cd/abcd....jpg\<close>. Two full-length digests with the same location
  are equal, for every root, depth, width and extension.
\<close>

theorem location_layout_and_injective:
  "(is_digest h \<and> path_parts (parse_path bp) \<noteq> [] \<longrightarrow>
      get_path (init bp d w) h ext =
        path_str (parse_path
          (bp @ concat (map (\<lambda>i. sep # py_slice h (i * w) (i * w + w)) [0..d - 1]) @
             sep # h @ ext))) \<and>
   (is_digest h \<and> 0 < w \<and> d * w \<le> 64 \<and> sep \<notin> set ext \<longrightarrow>
      get_path (init bp d w) h ext =
        path_str \<lparr>path_root = path_root (parse_path bp),
                  path_parts = path_parts (parse_path bp) @
                    map (\<lambda>i. take (nat w) (drop (nat (i * w)) h)) [0..d - 1] @ [h @ ext]\<rparr>) \<and>
   (is_digest h \<longrightarrow>
      get_path image_storage_default h ''.jpg'' =
        ''/mnt/raid1/sai-images/'' @ take 2 h @ ''/'' @ take 2 (drop 2 h) @ ''/'' @ h @ ''.jpg'') \<and>
   (is_digest h1 \<and> is_digest h2 \<and> get_path (init bp' d' w') h1 ext' = get_path (init bp' d' w') h2 ext'
      \<longrightarrow> h1 = h2)"
proof (intro conjI impI)
  assume a: "is_digest h \<and> path_parts (parse_path bp) \<noteq> []"
  then have "h \<noteq> []" "sep \<notin> set h" "path_parts (parse_path bp) \<noteq> []"
    using is_digest_plain by blast+
  from get_file_path_layout_string [OF this, of d w ext] show "get_path (init bp d w) h ext =
        path_str (parse_path
          (bp @ concat (map (\<lambda>i. sep # py_slice h (i * w) (i * w + w)) [0..d - 1]) @
             sep # h @ ext))"
    by (simp only: get_path_def)
next
  assume "is_digest h \<and> 0 < w \<and> d * w \<le> 64 \<and> sep \<notin> set ext"
  then show "get_path (init bp d w) h ext =
        path_str \<lparr>path_root = path_root (parse_path bp),
                  path_parts = path_parts (parse_path bp) @
                    map (\<lambda>i. take (nat w) (drop (nat (i * w)) h)) [0..d - 1] @ [h @ ext]\<rparr>"
    by (simp add: get_path_def get_file_path_layout)
next
  assume "is_digest h"
  then show "get_path image_storage_default h ''.jpg'' =
        ''/mnt/raid1/sai-images/'' @ take 2 h @ ''/'' @ take 2 (drop 2 h) @ ''/'' @ h @ ''.jpg''"
    by (rule default_layout)
next
  assume "is_digest h1 \<and> is_digest h2 \<and>
    get_path (init bp' d' w') h1 ext' = get_path (init bp' d' w') h2 ext'"
  then show "h1 = h2" using get_path_inj by blast
qed

theorem location_layout_and_injective_witness:
  "is_digest hello_hash \<and> path_parts (parse_path ''/srv/img'') \<noteq> [] \<and>
   (0::int) < 2 \<and> (2::int) * 2 \<le> 64 \<and> sep \<notin> set ''.jpg'' \<and>
   get_path (init ''/srv/img'' 2 2) hello_hash ''.jpg'' =
     path_str (parse_path
       ''/srv/img/2c/f2/2cf24dba5fb0a30e26e83b2ac5b9e29e1b161e5c1fa7425e73043362938b9824.jpg'') \<and>
   get_path (init ''/srv/img'' 2 2) hello_hash ''.jpg'' =
     path_str \<lparr>path_root = ''/'',
               path_parts = [''srv'', ''img'', ''2c'', ''f2'',
                 ''2cf24dba5fb0a30e26e83b2ac5b9e29e1b161e5c1fa7425e73043362938b9824.jpg'']\<rparr> \<and>
   get_path image_storage_default hello_hash ''.jpg'' =
     ''/mnt/raid1/sai-images/2c/f2/2cf24dba5fb0a30e26e83b2ac5b9e29e1b161e5c1fa7425e73043362938b9824.jpg'' \<and>
   get_path (init ''/srv/img'' 2 2) hello_hash ''.jpg'' =
     get_path (init ''/srv/img'' 2 2) hello_hash ''.jpg'' \<and>
   hello_hash = hello_hash"
proof -
  note dg = is_digest_hello_hash
  have s: "sep \<notin> set ''.jpg''" by (simp add: sep_def)
  have p: "parse_path ''/srv/img'' = \<lparr>path_root = ''/'', path_parts = [''srv'', ''img'']\<rparr>"
    by (simp add: parse_path_def splitroot_def sep_def keep_part_def)
  have str: "''/srv/img'' @ concat (map (\<lambda>i. sep # py_slice hello_hash (i * 2) (i * 2 + 2)) [0..2 - 1]) @
      sep # hello_hash @ ''.jpg'' =
      ''/srv/img/2c/f2/2cf24dba5fb0a30e26e83b2ac5b9e29e1b161e5c1fa7425e73043362938b9824.jpg''"
    unfolding hello_hash_def by code_simp
  have sl: "map (\<lambda>i. take (nat 2) (drop (nat (i * 2)) hello_hash)) [0..2 - 1] = [''2c'', ''f2'']"
    unfolding hello_hash_def by code_simp
  have t: "take 2 hello_hash = ''2c''" "take 2 (drop 2 hello_hash) = ''f2''"
    unfolding hello_hash_def by simp_all
  have ne: "path_parts (parse_path ''/srv/img'') \<noteq> []" by (simp add: p)
  have fits: "is_digest hello_hash \<and> (0::int) < 2 \<and> (2::int) * 2 \<le> 64 \<and> sep \<notin> set ''.jpg''"
    using dg s by simp
  note inst = location_layout_and_injective [of hello_hash "''/srv/img''" 2 2 "''.jpg''"
      hello_hash hello_hash "''/srv/img''" 2 2 "''.jpg''"]
  from inst [THEN conjunct1, rule_format, OF conjI [OF dg ne]]
  have a1: "get_path (init ''/srv/img'' 2 2) hello_hash ''.jpg'' =
     path_str (parse_path
       ''/srv/img/2c/f2/2cf24dba5fb0a30e26e83b2ac5b9e29e1b161e5c1fa7425e73043362938b9824.jpg'')"
    by (simp only: str)
  from inst [THEN conjunct2, THEN conjunct1, rule_format, OF fits]
  have "get_path (init ''/srv/img'' 2 2) hello_hash ''.jpg'' =
     path_str \<lparr>path_root = ''/'',
               path_parts = [''srv'', ''img''] @ [''2c'', ''f2''] @ [hello_hash @ ''.jpg'']\<rparr>"
    by (simp only: sl p pure_path.simps)
  then have a2: "get_path (init ''/srv/img'' 2 2) hello_hash ''.jpg'' =
     path_str \<lparr>path_root = ''/'',
               path_parts = [''srv'', ''img'', ''2c'', ''f2'',
                 ''2cf24dba5fb0a30e26e83b2ac5b9e29e1b161e5c1fa7425e73043362938b9824.jpg'']\<rparr>"
    by (simp add: hello_hash_def)
  have a3: "get_path image_storage_default hello_hash ''.jpg'' =
     ''/mnt/raid1/sai-images/2c/f2/2cf24dba5fb0a30e26e83b2ac5b9e29e1b161e5c1fa7425e73043362938b9824.jpg''"
    by (rule hello_get_path_jpg)
  show ?thesis
    using dg s a1 a2 a3 by (simp add: p)
qed

text \<open>
  Outside these conditions the layout of the claim fails: with a width of zero there is no
  directory level although the depth is 2, with a depth of 33 and a width of 2 there are 32
  levels, and with the root \<^verbatim>\<open>/\<close> the location starts with one separator, not with the two of
  \<^verbatim>\<open>{root}/{digest[0:w]}\<close>.
\<close>

theorem shard_levels_differ_from_depth:
  "get_path (init ''/srv/img'' 2 0) hello_hash ''.jpg'' =
     ''/srv/img/2cf24dba5fb0a30e26e83b2ac5b9e29e1b161e5c1fa7425e73043362938b9824.jpg'' \<and>
   get_path (init ''/srv/img'' 33 2) hello_hash ''.jpg'' =
     ''/srv/img/2c/f2/4d/ba/5f/b0/a3/0e/26/e8/3b/2a/c5/b9/e2/9e/1b/16/1e/5c/1f/a7/42/5e/73/04/33/62/93/8b/98/24/2cf24dba5fb0a30e26e83b2ac5b9e29e1b161e5c1fa7425e73043362938b9824.jpg'' \<and>
   get_path (init ''/'' 2 2) hello_hash ''.jpg'' =
     ''/2c/f2/2cf24dba5fb0a30e26e83b2ac5b9e29e1b161e5c1fa7425e73043362938b9824.jpg''"
  unfolding hello_hash_def by code_simp

subsection \<open>Claim C5\<close>

text \<open>
  C5 (as amended). When an object is already at the final location and the existence check of
  \<open>store\<close> meets no failure, \<open>store\<close> changes nothing in the file system and issues no call (no
  directory creation, no write, no rename): it returns the world it was given, with a result
  whose \<open>is_duplicate\<close> is true and whose size is the length of the bytes supplied; this holds
  whatever other failures the environment had ready. Consequently, when a first store into a
  vacant location returns, its result is not a duplicate, exactly one write was issued, and a
  second store of the same payload, whose existence check meets no failure, returns a duplicate
  with the same hash and path and leaves the world as the first store left it.
\<close>

theorem duplicate_store_changes_nothing:
  "(files w (get_file_path self (compute_hash (payload inp)) ext) \<noteq> None \<and>
    stat_fault flt = None \<longrightarrow>
      store self flt now inp ext md w =
        (Inr \<lparr>hash = compute_hash (payload inp),
              path = get_path self (compute_hash (payload inp)) ext,
              size_bytes = length (payload inp), is_duplicate = True, stored_at = now\<rparr>, w)) \<and>
   (files w0 (get_file_path self (compute_hash (payload inp)) ext) = None \<and>
    store self flt1 now1 inp ext md w0 = (Inr r1, w1) \<and> stat_fault flt2 = None \<longrightarrow>
      is_duplicate r1 = False \<and>
      length (filter is_write (new_calls w0 w1)) = 1 \<and>
      store self flt2 now2 inp ext md w1 =
        (Inr (r1\<lparr>is_duplicate := True, stored_at := now2\<rparr>), w1))"
proof (intro conjI impI)
  assume "files w (get_file_path self (compute_hash (payload inp)) ext) \<noteq> None \<and>
    stat_fault flt = None"
  then have "path_exists (stat_fault flt) w (get_file_path self (compute_hash (payload inp)) ext) =
      Inr True"
    using probe_present by blast
  then show "store self flt now inp ext md w =
        (Inr \<lparr>hash = compute_hash (payload inp),
              path = get_path self (compute_hash (payload inp)) ext,
              size_bytes = length (payload inp), is_duplicate = True, stored_at = now\<rparr>, w)"
    by (rule store_duplicate)
next
  assume a: "files w0 (get_file_path self (compute_hash (payload inp)) ext) = None \<and>
    store self flt1 now1 inp ext md w0 = (Inr r1, w1) \<and> stat_fault flt2 = None"
  then have vacant: "files w0 (get_file_path self (compute_hash (payload inp)) ext) = None"
    and ret: "store self flt1 now1 inp ext md w0 = (Inr r1, w1)"
    and sf2: "stat_fault flt2 = None"
    by blast+
  note absent = store_returned_on_vacant [OF vacant ret]
  have r1: "r1 = \<lparr>hash = compute_hash (payload inp),
              path = get_path self (compute_hash (payload inp)) ext,
              size_bytes = length (payload inp), is_duplicate = False, stored_at = now1\<rparr>"
    using store_returns [OF ret] absent by simp
  show "is_duplicate r1 = False" by (simp add: r1)
  from store_fresh_returns(2) [OF absent ret]
  show "length (filter is_write (new_calls w0 w1)) = 1"
    by (auto simp: is_write_def)
  have "files w1 (get_file_path self (compute_hash (payload inp)) ext) \<noteq> None"
    using store_fresh_returns(1) [OF absent ret] by simp
  from store_duplicate [OF probe_present [OF sf2 this]]
  show "store self flt2 now2 inp ext md w1 =
        (Inr (r1\<lparr>is_duplicate := True, stored_at := now2\<rparr>), w1)"
    by (simp add: r1)
qed

theorem duplicate_store_changes_nothing_witness:
  "files stored_hello (get_file_path image_storage_default (compute_hash (payload (Bytes hello))) ''.jpg'') \<noteq> None \<and>
   stat_fault disk_full = None \<and>
   store image_storage_default disk_full 7 (Bytes hello) ''.jpg'' (None :: unit option) stored_hello =
     (Inr \<lparr>hash = hello_hash,
           path = ''/mnt/raid1/sai-images/2c/f2/2cf24dba5fb0a30e26e83b2ac5b9e29e1b161e5c1fa7425e73043362938b9824.jpg'',
           size_bytes = 5, is_duplicate = True, stored_at = 7\<rparr>, stored_hello) \<and>
   files empty_world (get_file_path image_storage_default (compute_hash (payload (Bytes hello))) ''.jpg'') = None \<and>
   store image_storage_default no_faults 0 (Bytes hello) ''.jpg'' (None :: unit option) empty_world =
     (Inr \<lparr>hash = hello_hash,
           path = ''/mnt/raid1/sai-images/2c/f2/2cf24dba5fb0a30e26e83b2ac5b9e29e1b161e5c1fa7425e73043362938b9824.jpg'',
           size_bytes = 5, is_duplicate = False, stored_at = 0\<rparr>, stored_hello) \<and>
   length (filter is_write (new_calls empty_world stored_hello)) = 1"
proof -
  have occupied: "files stored_hello (get_file_path image_storage_default (compute_hash (payload (Bytes hello))) ''.jpg'') \<noteq> None"
    by (simp add: length_hello hello_digest hello_file_path_jpg stored_hello_def)
  have vacant: "files empty_world (get_file_path image_storage_default (compute_hash (payload (Bytes hello))) ''.jpg'') = None"
    by (simp add: empty_world_def)
  note first = store_hello [of 0 "None :: unit option"]
  have sf: "stat_fault disk_full = None" by (simp add: disk_full_def)
  from duplicate_store_changes_nothing [of stored_hello image_storage_default "Bytes hello" "''.jpg''"
      disk_full 7 "None :: unit option" empty_world no_faults 0 _ stored_hello disk_full 7]
    occupied vacant first sf
  show ?thesis
    by (simp add: length_hello hello_digest hello_get_path_jpg)
qed

text \<open>
  Without that condition the claim fails: when the object is at the final location but \<^verbatim>\<open>stat\<close>
  fails with \<^verbatim>\<open>EACCES\<close> (13; a directory above it may not be searched), \<^verbatim>\<open>Path.exists\<close> raises
  the error again and \<open>store\<close> raises it instead of returning a duplicate.
\<close>

theorem existing_object_with_failing_check_raises:
  "files stored_hello (get_file_path image_storage_default (compute_hash (payload (Bytes hello))) ''.jpg'') =
     Some (File hello) \<and>
   store image_storage_default (no_faults\<lparr>stat_fault := Some 13\<rparr>) 7 (Bytes hello) ''.jpg''
       (None :: unit option) stored_hello =
     (Inl (OSError 13), stored_hello)"
proof -
  have "path_exists (stat_fault (no_faults\<lparr>stat_fault := Some 13\<rparr>)) stored_hello
      (get_file_path image_storage_default (compute_hash (payload (Bytes hello))) ''.jpg'') =
      Inl (OSError 13)"
    by (simp add: path_exists_def os_stat_def ignore_error_def
        ENOENT_def ENOTDIR_def EBADF_def ELOOP_def)
  from store_probe_raises [OF this, of 7 "None :: unit option"]
  show ?thesis
    by (simp add: length_hello hello_digest hello_file_path_jpg stored_hello_def)
qed

subsection \<open>Claim C6\<close>

text \<open>
  C6 (as amended). After a store that returned, a fetch of the returned digest whose existence
  check and read meet no failure returns exactly the bytes given to the store, provided the final location was
  vacant before the store or already held exactly those bytes, and nothing has changed the
  location between the store and the fetch.
\<close>

theorem fetch_returns_what_was_stored:
  "store self flt now inp ext md w = (Inr r, w1) \<Longrightarrow>
   files w (get_file_path self (compute_hash (payload inp)) ext) = None \<or>
     files w (get_file_path self (compute_hash (payload inp)) ext) = Some (File (payload inp)) \<Longrightarrow>
   files w2 (get_file_path self (hash r) ext) = files w1 (get_file_path self (hash r) ext) \<Longrightarrow>
   stat_fault flt' = None \<Longrightarrow> read_fault flt' = None \<Longrightarrow>
     fetch self flt' (hash r) ext w2 = Inr (Some (payload inp))"
proof -
  assume ret: "store self flt now inp ext md w = (Inr r, w1)"
    and before: "files w (get_file_path self (compute_hash (payload inp)) ext) = None \<or>
      files w (get_file_path self (compute_hash (payload inp)) ext) = Some (File (payload inp))"
    and same: "files w2 (get_file_path self (hash r) ext) = files w1 (get_file_path self (hash r) ext)"
    and sf: "stat_fault flt' = None"
    and rd: "read_fault flt' = None"
  have h: "hash r = compute_hash (payload inp)"
    using store_returns [OF ret] by simp
  have "files w1 (get_file_path self (compute_hash (payload inp)) ext) = Some (File (payload inp))"
    using before
  proof
    assume "files w (get_file_path self (compute_hash (payload inp)) ext) = None"
    from store_returned_on_vacant [OF this ret] show ?thesis
      using ret by (rule store_fresh_returns(1))
  next
    assume occ: "files w (get_file_path self (compute_hash (payload inp)) ext) = Some (File (payload inp))"
    show ?thesis
    proof (cases "path_exists (stat_fault flt) w (get_file_path self (compute_hash (payload inp)) ext)")
      case (Inl e)
      from store_probe_raises [OF this, of now md] ret show ?thesis by simp
    next
      case (Inr present)
      show ?thesis
      proof (cases present)
        case True
        with Inr have "path_exists (stat_fault flt) w
            (get_file_path self (compute_hash (payload inp)) ext) = Inr True"
          by simp
        from store_duplicate [OF this, of now md] ret have "w1 = w" by simp
        with occ show ?thesis by simp
      next
        case False
        with Inr have "path_exists (stat_fault flt) w
            (get_file_path self (compute_hash (payload inp)) ext) = Inr False"
          by simp
        then show ?thesis using ret by (rule store_fresh_returns(1))
      qed
    qed
  qed
  with same h rd sf show ?thesis
    by (simp add: fetch_def path_exists_no_fault os_read_def)
qed

theorem fetch_returns_what_was_stored_witness:
  "store image_storage_default no_faults 0 (Bytes hello) ''.jpg'' (None :: unit option) empty_world =
     (Inr \<lparr>hash = hello_hash,
           path = ''/mnt/raid1/sai-images/2c/f2/2cf24dba5fb0a30e26e83b2ac5b9e29e1b161e5c1fa7425e73043362938b9824.jpg'',
           size_bytes = 5, is_duplicate = False, stored_at = 0\<rparr>, stored_hello) \<and>
   files empty_world (get_file_path image_storage_default (compute_hash (payload (Bytes hello))) ''.jpg'') = None \<and>
   stat_fault no_faults = None \<and> read_fault no_faults = None \<and>
   fetch image_storage_default no_faults hello_hash ''.jpg'' stored_hello = Inr (Some hello)"
proof -
  note ret = store_hello [of 0 "None :: unit option"]
  have vacant: "files empty_world (get_file_path image_storage_default (compute_hash (payload (Bytes hello))) ''.jpg'') = None"
    by (simp add: empty_world_def)
  have rd: "read_fault no_faults = None" by (simp add: no_faults_def)
  have sf: "stat_fault no_faults = None" by (simp add: no_faults_def)
  from fetch_returns_what_was_stored [OF ret disjI1 [OF vacant] refl sf rd] ret vacant rd sf
  show ?thesis by (simp add: length_hello)
qed

theorem stale_temporary_file_is_taken_for_the_object:
  "store image_storage_default disk_full 0 (Bytes hello) ''.jpg'' (None :: unit option) empty_world =
     (Inl (OSError 13), leftover) \<and>
   store image_storage_default no_faults 1 (Bytes hello) ''.tmp'' (None :: unit option) leftover =
     (Inr \<lparr>hash = hello_hash,
           path = ''/mnt/raid1/sai-images/2c/f2/2cf24dba5fb0a30e26e83b2ac5b9e29e1b161e5c1fa7425e73043362938b9824.tmp'',
           size_bytes = 5, is_duplicate = True, stored_at = 1\<rparr>, leftover) \<and>
   fetch image_storage_default no_faults hello_hash ''.tmp'' leftover = Inr (Some [0x68]) \<and>
   [0x68] \<noteq> hello"
proof -
  have occ: "files leftover (get_file_path image_storage_default (compute_hash (payload (Bytes hello))) ''.tmp'') \<noteq> None"
    by (simp add: length_hello hello_digest hello_file_path_tmp leftover_def)
  have sf: "stat_fault no_faults = None" by (simp add: no_faults_def)
  have "fetch image_storage_default no_faults hello_hash ''.tmp'' leftover = Inr (Some [0x68])"
    by (simp add: fetch_def hello_file_path_tmp path_exists_no_fault os_read_def leftover_def no_faults_def)
  moreover have "[0x68] \<noteq> hello" by (simp add: hello_def)
  ultimately show ?thesis
    using store_hello_disk_full [of 0 "None :: unit option"]
      store_duplicate [OF probe_present [OF sf occ], of 1 "None :: unit option"]
    by (simp add: length_hello hello_digest hello_get_path_tmp)
qed

subsection \<open>Claim C7\<close>

text \<open>
  C7 (as amended). When nothing is at the location derived for a digest, and the existence check
  does not fail with an error other than \<^verbatim>\<open>ENOENT\<close>, \<^verbatim>\<open>ENOTDIR\<close>, \<^verbatim>\<open>EBADF\<close> or \<^verbatim>\<open>ELOOP\<close>, \<open>fetch\<close>
  returns the not-found value and no error, \<open>exists\<close> returns false, and \<open>delete\<close> returns false
  and leaves the file system as it was, with no call issued; this holds whatever other failures
  the environment had ready.
\<close>

theorem not_found_is_not_an_error:
  "files w (get_file_path self image_hash extension) = None \<Longrightarrow>
   stat_fault flt = None \<or> (\<exists>e. stat_fault flt = Some e \<and> ignore_error e) \<Longrightarrow>
     fetch self flt image_hash extension w = Inr None \<and>
     exists self flt image_hash extension w = Inr False \<and>
     delete self flt image_hash extension w = (Inr False, w)"
  by (drule probe_ignored, assumption) (simp add: fetch_def exists_def delete_def)

theorem not_found_is_not_an_error_witness:
  "files empty_world (get_file_path image_storage_default (compute_hash hello) ''.jpg'') = None \<and>
   stat_fault disk_full = None \<and>
   fetch image_storage_default disk_full (compute_hash hello) ''.jpg'' empty_world = Inr None \<and>
   exists image_storage_default disk_full (compute_hash hello) ''.jpg'' empty_world = Inr False \<and>
   delete image_storage_default disk_full (compute_hash hello) ''.jpg'' empty_world =
     (Inr False, empty_world)"
proof -
  have v: "files empty_world (get_file_path image_storage_default (compute_hash hello) ''.jpg'') = None"
    by (simp add: empty_world_def)
  have sf: "stat_fault disk_full = None" by (simp add: disk_full_def)
  from not_found_is_not_an_error [OF v disjI1 [OF sf]] v sf show ?thesis by simp
qed

text \<open>
  Without that condition the claim fails. A digest of 300 characters is a file name no file
  system accepts: nothing is at its location, \<^verbatim>\<open>stat\<close> fails with \<^verbatim>\<open>ENAMETOOLONG\<close>, which
  \<^verbatim>\<open>Path.exists\<close> does not take for absence, and \<open>exists\<close>, \<open>fetch\<close> and \<open>delete\<close> raise it.
\<close>

theorem absent_object_with_long_name_raises:
  "files empty_world (get_file_path image_storage_default long_digest ''.jpg'') = None \<and>
   length long_digest = 300 \<and>
   stat_fault name_too_long = Some 36 \<and>
   exists image_storage_default name_too_long long_digest ''.jpg'' empty_world = Inl (OSError 36) \<and>
   fetch image_storage_default name_too_long long_digest ''.jpg'' empty_world = Inl (OSError 36) \<and>
   delete image_storage_default name_too_long long_digest ''.jpg'' empty_world =
     (Inl (OSError 36), empty_world)"
  by (simp add: fetch_def exists_def delete_def path_exists_def os_stat_def ignore_error_def
      name_too_long_def long_digest_def empty_world_def
      ENOENT_def ENOTDIR_def EBADF_def ELOOP_def ENAMETOOLONG_def)

subsection \<open>Claim C8\<close>

text \<open>
  C8 (as amended). The temporary name is a function of the final path alone, namely the final
  path with its suffix replaced by \<^verbatim>\<open>.tmp\<close>: every store of one payload and extension under one
  configuration that reaches the write (the existence check and the creation of the shard
  directory meet no failure and the final location is vacant) issues its only write on that same
  path, whatever the file system, the clock, the metadata and the other failures of the
  invocation are.
\<close>

theorem temporary_name_is_determined_by_final_path:
  assumes tp: "with_suffix (get_file_path self (compute_hash (payload inp)) ext) ''.tmp'' = Inr tp"
    and first: "files w (get_file_path self (compute_hash (payload inp)) ext) = None"
      "stat_fault flt = None" "makedirs_fault flt = None"
    and second: "files w' (get_file_path self (compute_hash (payload inp)) ext) = None"
      "stat_fault flt' = None" "makedirs_fault flt' = None"
  shows "filter is_write (new_calls w (snd (store self flt now inp ext md w))) =
       [OpenWrite tp (payload inp)] \<and>
     filter is_write (new_calls w' (snd (store self flt' now' inp ext md' w'))) =
       [OpenWrite tp (payload inp)]"
proof
  show "filter is_write (new_calls w (snd (store self flt now inp ext md w))) =
       [OpenWrite tp (payload inp)]"
    using probe_absent [OF first(2) first(1)] tp first(3) by (rule store_write_target)
  show "filter is_write (new_calls w' (snd (store self flt' now' inp ext md' w'))) =
       [OpenWrite tp (payload inp)]"
    using probe_absent [OF second(2) second(1)] tp second(3) by (rule store_write_target)
qed

theorem temporary_name_is_determined_by_final_path_witness:
  "with_suffix (get_file_path image_storage_default (compute_hash (payload (Bytes hello))) ''.jpg'') ''.tmp'' =
     Inr hello_tmp \<and>
   files empty_world (get_file_path image_storage_default (compute_hash (payload (Bytes hello))) ''.jpg'') = None \<and>
   stat_fault no_faults = None \<and> makedirs_fault no_faults = None \<and>
   files leftover (get_file_path image_storage_default (compute_hash (payload (Bytes hello))) ''.jpg'') = None \<and>
   stat_fault disk_full = None \<and> makedirs_fault disk_full = None \<and>
   filter is_write (new_calls empty_world
     (snd (store image_storage_default no_faults 0 (Bytes hello) ''.jpg'' (None :: unit option) empty_world))) =
     [OpenWrite hello_tmp hello] \<and>
   filter is_write (new_calls leftover
     (snd (store image_storage_default disk_full 9 (Bytes hello) ''.jpg'' (None :: unit option) leftover))) =
     [OpenWrite hello_tmp hello]"
proof -
  have tp: "with_suffix (get_file_path image_storage_default (compute_hash (payload (Bytes hello))) ''.jpg'') ''.tmp'' = Inr hello_tmp"
    by (simp add: length_hello hello_digest hello_file_path_jpg hello_temp_of_jpg)
  have v1: "files empty_world (get_file_path image_storage_default (compute_hash (payload (Bytes hello))) ''.jpg'') = None"
    by (simp add: empty_world_def)
  have v2: "files leftover (get_file_path image_storage_default (compute_hash (payload (Bytes hello))) ''.jpg'') = None"
    using hello_paths_distinct
    by (simp add: length_hello hello_digest hello_file_path_jpg leftover_def hello_dirs_files)
  have m1: "makedirs_fault no_faults = None" by (simp add: no_faults_def)
  have m2: "makedirs_fault disk_full = None" by (simp add: disk_full_def)
  have s1: "stat_fault no_faults = None" by (simp add: no_faults_def)
  have s2: "stat_fault disk_full = None" by (simp add: disk_full_def)
  from temporary_name_is_determined_by_final_path [OF tp v1 s1 m1 v2 s2 m2, of 0 "None :: unit option" 9 "None :: unit option"]
    tp v1 v2 m1 m2 s1 s2
  show ?thesis by (simp add: length_hello)
qed

theorem two_stores_share_the_temporary_name:
  "filter is_write (new_calls empty_world
     (snd (store image_storage_default no_faults 0 (Bytes hello) ''.jpg'' (None :: unit option) empty_world))) =
     [OpenWrite hello_tmp hello] \<and>
   filter is_write (new_calls empty_world
     (snd (store image_storage_default disk_full 1 (Bytes hello) ''.jpg'' (None :: unit option) empty_world))) =
     [OpenWrite hello_tmp hello]"
proof -
  have tp: "with_suffix (get_file_path image_storage_default (compute_hash (payload (Bytes hello))) ''.jpg'') ''.tmp'' = Inr hello_tmp"
    by (simp add: length_hello hello_digest hello_file_path_jpg hello_temp_of_jpg)
  have v1: "files empty_world (get_file_path image_storage_default (compute_hash (payload (Bytes hello))) ''.jpg'') = None"
    by (simp add: empty_world_def)
  have m1: "makedirs_fault no_faults = None" by (simp add: no_faults_def)
  have m2: "makedirs_fault disk_full = None" by (simp add: disk_full_def)
  have s1: "stat_fault no_faults = None" by (simp add: no_faults_def)
  have s2: "stat_fault disk_full = None" by (simp add: disk_full_def)
  from store_write_target [OF probe_absent [OF s1 v1] tp m1, of 0 "None :: unit option"]
    store_write_target [OF probe_absent [OF s2 v1] tp m2, of 1 "None :: unit option"]
  show ?thesis by (simp add: length_hello)
qed

subsection \<open>Claim C9\<close>

text \<open>
  C9. Whenever \<open>store\<close> returns a result, on the first write as on a duplicate, the hash of the
  result is the SHA-256 digest of the bytes given and its path is the location \<open>get_path\<close>
  derives from that hash and the extension.
\<close>

theorem result_hash_and_path:
  "store self flt now inp ext md w = (Inr r, w') \<Longrightarrow>
     hash r = compute_hash (payload inp) \<and> hash r = sha256_hex (payload inp) \<and>
     path r = get_path self (hash r) ext"
  by (drule store_returns) (simp add: compute_hash_def)

theorem result_hash_and_path_witness:
  "store image_storage_default no_faults 0 (Bytes hello) ''.jpg'' (None :: unit option) empty_world =
     (Inr \<lparr>hash = hello_hash,
           path = ''/mnt/raid1/sai-images/2c/f2/2cf24dba5fb0a30e26e83b2ac5b9e29e1b161e5c1fa7425e73043362938b9824.jpg'',
           size_bytes = 5, is_duplicate = False, stored_at = 0\<rparr>, stored_hello) \<and>
   hello_hash = compute_hash (payload (Bytes hello)) \<and>
   hello_hash = sha256_hex (payload (Bytes hello)) \<and>
   ''/mnt/raid1/sai-images/2c/f2/2cf24dba5fb0a30e26e83b2ac5b9e29e1b161e5c1fa7425e73043362938b9824.jpg'' =
     get_path image_storage_default hello_hash ''.jpg''"
  using result_hash_and_path [OF store_hello [of 0 "None :: unit option"]] store_hello [of 0 "None :: unit option"]
  by simp

subsection \<open>Claim C10\<close>

text \<open>
  C10 (as amended). Path derivation is total: \<open>get_path\<close>, \<open>exists\<close>, \<open>fetch\<close> and \<open>delete\<close> take
  any string as the digest, and deriving the location raises nothing; \<open>exists\<close> then returns
  whether something is at the derived location, unless the existence check itself fails. A
  slice that starts at or beyond the end of the digest is empty, and empty components are
  dropped, so that the empty digest has the root itself as its shard directory. For a digest
  that contains neither a separator nor a dot, with an extension that contains no separator and
  is not \<^verbatim>\<open>..\<close>, the location is inside the tree of the root: its components are those of the
  root followed by components none of which is \<^verbatim>\<open>..\<close>. With the default configuration the
  location of the short digest \<^verbatim>\<open>ab\<close> is the location of no full-length digest.
\<close>

theorem degenerate_digests_have_locations:
  "(sep \<notin> set h \<and> CHR ''.'' \<notin> set h \<and> sep \<notin> set ext \<and> ext \<noteq> ''..'' \<longrightarrow>
      inside_root self (get_file_path self h ext)) \<and>
   (stat_fault flt = None \<longrightarrow>
      exists self flt h ext w = Inr (files w (get_file_path self h ext) \<noteq> None)) \<and>
   (sep \<notin> set h \<longrightarrow>
      get_shard_path self h =
        \<lparr>path_root = path_root (base_path self),
         path_parts = path_parts (base_path self) @ filter keep_part (shard_parts self h)\<rparr>) \<and>
   (int (length h) \<le> i * shard_width self \<longrightarrow>
      py_slice h (i * shard_width self) (i * shard_width self + shard_width self) = []) \<and>
   get_shard_path self [] = base_path self \<and>
   (is_digest h' \<longrightarrow>
      get_path image_storage_default ''ab'' ext' \<noteq> get_path image_storage_default h' ext')"
proof (intro conjI impI)
  assume "sep \<notin> set h \<and> CHR ''.'' \<notin> set h \<and> sep \<notin> set ext \<and> ext \<noteq> ''..''"
  then show "inside_root self (get_file_path self h ext)"
    using inside_root_file_path by blast
next
  assume "stat_fault flt = None"
  then show "exists self flt h ext w = Inr (files w (get_file_path self h ext) \<noteq> None)"
    by (rule exists_without_fault)
next
  assume "sep \<notin> set h"
  then show "get_shard_path self h =
        \<lparr>path_root = path_root (base_path self),
         path_parts = path_parts (base_path self) @ filter keep_part (shard_parts self h)\<rparr>"
    by (rule get_shard_path_plain)
next
  assume "int (length h) \<le> i * shard_width self"
  then show "py_slice h (i * shard_width self) (i * shard_width self + shard_width self) = []"
    by (rule py_slice_out_of_range)
next
  show "get_shard_path self [] = base_path self"
    by (rule get_shard_path_Nil)
next
  assume "is_digest h'"
  then show "get_path image_storage_default ''ab'' ext' \<noteq> get_path image_storage_default h' ext'"
    by (rule short_digest_location_unused)
qed

theorem degenerate_digests_have_locations_witness:
  "sep \<notin> set ''ab'' \<and> CHR ''.'' \<notin> set ''ab'' \<and> sep \<notin> set ''.jpg'' \<and> ''.jpg'' \<noteq> ''..'' \<and>
   inside_root image_storage_default (get_file_path image_storage_default ''ab'' ''.jpg'') \<and>
   stat_fault no_faults = None \<and>
   exists image_storage_default no_faults ''ab'' ''.jpg'' empty_world = Inr False \<and>
   get_path image_storage_default ''ab'' ''.jpg'' = ''/mnt/raid1/sai-images/ab/ab.jpg'' \<and>
   shard_parts image_storage_default ''ab'' = [''ab'', []] \<and>
   get_shard_path image_storage_default ''ab'' =
     \<lparr>path_root = ''/'', path_parts = [''mnt'', ''raid1'', ''sai-images'', ''ab'']\<rparr> \<and>
   int (length ''ab'') \<le> 1 * shard_width image_storage_default \<and>
   py_slice ''ab'' 2 4 = [] \<and>
   get_shard_path image_storage_default [] = base_path image_storage_default \<and>
   is_digest hello_hash \<and>
   get_path image_storage_default ''ab'' ''.jpg'' \<noteq> get_path image_storage_default hello_hash ''.jpg''"
proof -
  have s: "sep \<notin> set ''ab''" "CHR ''.'' \<notin> set ''ab''" "sep \<notin> set ''.jpg''" "''.jpg'' \<noteq> ''..''"
    by (simp_all add: sep_def)
  have sf: "stat_fault no_faults = None" by (simp add: no_faults_def)
  have w: "shard_width image_storage_default = 2"
    by (simp add: image_storage_default_def init_def)
  have p: "get_path image_storage_default ''ab'' ''.jpg'' = ''/mnt/raid1/sai-images/ab/ab.jpg''"
    by code_simp
  from degenerate_digests_have_locations [of "''ab''" "''.jpg''" image_storage_default no_faults
      empty_world 1 hello_hash "''.jpg''"]
    s sf is_digest_hello_hash
  show ?thesis
    by (simp add: w p default_shard_parts_ab default_base keep_part_def empty_world_def)
qed

text \<open>
  A digest with a separator has a location that is not under the root, an extension that starts
  with a separator replaces the whole path, and the digest \<^verbatim>\<open>..\<close>, which has no separator, has a
  location that passes through the parent of the root; and the existence check raises on a
  digest that is too long for a file name.
\<close>

theorem separator_in_digest_leaves_the_root:
  "get_path image_storage_default ''/'' ''.jpg'' = ''/.jpg'' \<and>
   \<not> under_root image_storage_default (get_file_path image_storage_default ''/'' ''.jpg'') \<and>
   get_path image_storage_default [] ''/etc/passwd'' = ''/etc/passwd'' \<and>
   get_path image_storage_default ''..'' ''.jpg'' = ''/mnt/raid1/sai-images/../...jpg'' \<and>
   under_root image_storage_default (get_file_path image_storage_default ''..'' ''.jpg'') \<and>
   \<not> inside_root image_storage_default (get_file_path image_storage_default ''..'' ''.jpg'') \<and>
   exists image_storage_default name_too_long long_digest ''.jpg'' empty_world = Inl (OSError 36)"
proof -
  have "exists image_storage_default name_too_long long_digest ''.jpg'' empty_world = Inl (OSError 36)"
    by (simp add: exists_def path_exists_def os_stat_def ignore_error_def name_too_long_def
        ENOENT_def ENOTDIR_def EBADF_def ELOOP_def ENAMETOOLONG_def)
  moreover have "get_path image_storage_default ''/'' ''.jpg'' = ''/.jpg'' \<and>
   \<not> under_root image_storage_default (get_file_path image_storage_default ''/'' ''.jpg'') \<and>
   get_path image_storage_default [] ''/etc/passwd'' = ''/etc/passwd'' \<and>
   get_path image_storage_default ''..'' ''.jpg'' = ''/mnt/raid1/sai-images/../...jpg'' \<and>
   under_root image_storage_default (get_file_path image_storage_default ''..'' ''.jpg'') \<and>
   \<not> inside_root image_storage_default (get_file_path image_storage_default ''..'' ''.jpg'')"
    by code_simp
  ultimately show ?thesis by simp
qed

end
